theory Spec2Isabelle
  imports Main "HOL-Library.List_Lexorder"
begin

section \<open>Strings and paths of the host platform\<close>

text \<open>
  The launcher in \<^verbatim>\<open>loader.py\<close> branches on \<^verbatim>\<open>is_windows()\<close> and uses
  \<^verbatim>\<open>os.path\<close>, which is \<^verbatim>\<open>ntpath\<close> on Windows and \<^verbatim>\<open>posixpath\<close> elsewhere.
  The platform is a parameter of the model. A \<open>char\<close> stands for one code point
  below 256.
\<close>

datatype platform = Windows | Posix

definition is_windows :: "platform \<Rightarrow> bool" where
  "is_windows plat = (plat = Windows)"

definition os_sep :: "platform \<Rightarrow> char" where
  "os_sep plat = (if is_windows plat then CHR 0x5C else CHR ''/'')"

definition os_pathsep :: "platform \<Rightarrow> char" where
  "os_pathsep plat = (if is_windows plat then CHR '';'' else CHR '':'')"

text \<open>The characters \<^verbatim>\<open>ntpath\<close> and \<^verbatim>\<open>posixpath\<close> treat as separators.\<close>

definition is_sep :: "platform \<Rightarrow> char \<Rightarrow> bool" where
  "is_sep plat c = (if is_windows plat then c = CHR 0x5C \<or> c = CHR ''/'' else c = CHR ''/'')"

text \<open>
  \<^verbatim>\<open>str.lower()\<close> on code points below 256: the ASCII capitals and the Latin-1
  capitals (all of 0xC0..0xDE but the multiplication sign 0xD7) move up by 32.
\<close>

definition chr_lower :: "char \<Rightarrow> char" where
  "chr_lower c =
     (let n = (of_char c :: nat)
      in if (65 \<le> n \<and> n \<le> 90) \<or> (192 \<le> n \<and> n \<le> 222 \<and> n \<noteq> 215)
         then char_of (n + 32) else c)"

definition str_lower :: "string \<Rightarrow> string" where
  "str_lower s = map chr_lower s"

text \<open>\<^verbatim>\<open>s.startswith(p)\<close>, \<^verbatim>\<open>s.endswith(p)\<close> and \<^verbatim>\<open>p in s\<close>.\<close>

fun startswith :: "string \<Rightarrow> string \<Rightarrow> bool" where
  "startswith s [] = True"
| "startswith [] (p # ps) = False"
| "startswith (c # cs) (p # ps) = (c = p \<and> startswith cs ps)"

definition endswith :: "string \<Rightarrow> string \<Rightarrow> bool" where
  "endswith s p = startswith (rev s) (rev p)"

fun str_contains :: "string \<Rightarrow> string \<Rightarrow> bool" where
  "str_contains [] p = (p = [])"
| "str_contains (c # cs) p = (startswith (c # cs) p \<or> str_contains cs p)"

text \<open>
  Splitting at every character that satisfies a test; \<^verbatim>\<open>s.split(sep)\<close> with an
  explicit one-character separator, and \<^verbatim>\<open>sep.join(parts)\<close>.
\<close>

fun split_where :: "(char \<Rightarrow> bool) \<Rightarrow> string \<Rightarrow> string list" where
  "split_where P [] = [[]]"
| "split_where P (c # cs) =
     (if P c then [] # split_where P cs
      else (case split_where P cs of
              [] \<Rightarrow> [[c]]
            | w # ws \<Rightarrow> (c # w) # ws))"

definition str_split :: "char \<Rightarrow> string \<Rightarrow> string list" where
  "str_split sep s = split_where (\<lambda>c. c = sep) s"

fun str_join :: "string \<Rightarrow> string list \<Rightarrow> string" where
  "str_join sep [] = []"
| "str_join sep [x] = x"
| "str_join sep (x # y # ys) = x @ sep @ str_join sep (y # ys)"

text \<open>\<^verbatim>\<open>str(n)\<close> for an integer.\<close>

definition digit_chr :: "nat \<Rightarrow> char" where
  "digit_chr d = ''0123456789'' ! d"

function str_nat :: "nat \<Rightarrow> string" where
  "str_nat n = (if n < 10 then [digit_chr n] else str_nat (n div 10) @ [digit_chr (n mod 10)])"
  by pat_completeness auto
termination
  by (relation "measure (\<lambda>n. n)") auto

declare str_nat.simps [simp del]

definition str_int :: "int \<Rightarrow> string" where
  "str_int i = (if i < 0 then CHR ''-'' # str_nat (nat (- i)) else str_nat (nat i))"

text \<open>
  \<^verbatim>\<open>ntpath.splitdrive\<close> for a drive letter (\<^verbatim>\<open>p[1:2] == ':'\<close>). UNC and device
  prefixes are not modelled: the launcher's own paths start with \<^verbatim>\<open>C:\<close>.
\<close>

definition splitdrive :: "platform \<Rightarrow> string \<Rightarrow> string \<times> string" where
  "splitdrive plat p =
     (if is_windows plat \<and> take 1 (drop 1 p) = '':'' then (take 2 p, drop 2 p)
      else ([], p))"

text \<open>
  \<^verbatim>\<open>os.path.basename\<close>: what follows the last separator of the path without its
  drive.
\<close>

definition basename :: "platform \<Rightarrow> string \<Rightarrow> string" where
  "basename plat p =
     rev (takeWhile (\<lambda>c. \<not> is_sep plat c) (rev (snd (splitdrive plat p))))"

text \<open>
  \<^verbatim>\<open>os.path.dirname\<close>: the path up to its last separator, without the
  separators that end it unless nothing else is left.
\<close>

definition dirname :: "platform \<Rightarrow> string \<Rightarrow> string" where
  "dirname plat p =
     (let (d, q) = splitdrive plat p;
          head = rev (dropWhile (\<lambda>c. \<not> is_sep plat c) (rev q));
          stripped = rev (dropWhile (is_sep plat) (rev head))
      in d @ (if stripped = [] then head else stripped))"

text \<open>
  \<^verbatim>\<open>os.path.join\<close> of two paths. On Posix no path has a drive, and the
  definition is that of \<^verbatim>\<open>posixpath.join\<close>.
\<close>

definition path_join :: "platform \<Rightarrow> string \<Rightarrow> string \<Rightarrow> string" where
  "path_join plat a p =
     (let (rd, rp) = splitdrive plat a;
          (pd, pp) = splitdrive plat p
      in if (case pp of [] \<Rightarrow> False | c # _ \<Rightarrow> is_sep plat c)
         then (if pd \<noteq> [] \<or> rd = [] then pd else rd) @ pp
         else if pd \<noteq> [] \<and> pd \<noteq> rd \<and> str_lower pd \<noteq> str_lower rd
         then pd @ pp
         else (if pd \<noteq> [] \<and> pd \<noteq> rd then pd else rd)
              @ (if (case rev rp of [] \<Rightarrow> False | c # _ \<Rightarrow> \<not> is_sep plat c)
                 then rp @ [os_sep plat] else rp)
              @ pp)"

text \<open>\<^verbatim>\<open>os.path.join(a, p1, ..., pn)\<close>.\<close>

definition os_path_join :: "platform \<Rightarrow> string \<Rightarrow> string list \<Rightarrow> string" where
  "os_path_join plat a ps = foldl (path_join plat) a ps"

text \<open>
  The components of \<^verbatim>\<open>os.path.normpath\<close>: empty components and \<^verbatim>\<open>.\<close> are
  dropped; \<^verbatim>\<open>..\<close> removes the component before it, is dropped at the root and
  is kept at the start of a relative path.
\<close>

fun norm_comps :: "bool \<Rightarrow> string list \<Rightarrow> string list \<Rightarrow> string list" where
  "norm_comps rooted acc [] = acc"
| "norm_comps rooted acc (c # cs) =
     (if c = [] \<or> c = ''.'' then norm_comps rooted acc cs
      else if c = ''..'' then
        (case rev acc of
           [] \<Rightarrow> (if rooted then norm_comps rooted acc cs
                   else norm_comps rooted (acc @ [c]) cs)
         | l # ls \<Rightarrow> (if l = ''..'' then norm_comps rooted (acc @ [c]) cs
                      else norm_comps rooted (rev ls) cs))
      else norm_comps rooted (acc @ [c]) cs)"

definition normpath :: "platform \<Rightarrow> string \<Rightarrow> string" where
  "normpath plat path =
     (if is_windows plat then
        (if startswith path [CHR 0x5C, CHR 0x5C, CHR ''.'', CHR 0x5C]
            \<or> startswith path [CHR 0x5C, CHR 0x5C, CHR ''?'', CHR 0x5C]
         then path
         else
           (let (drive, rest) = splitdrive plat path;
                rooted = (case rest of [] \<Rightarrow> False | c # _ \<Rightarrow> is_sep plat c);
                prefix = drive @ (if rooted then [os_sep plat] else []);
                comps = norm_comps rooted [] (split_where (is_sep plat) rest)
            in if prefix = [] \<and> comps = [] then ''.''
               else prefix @ str_join [os_sep plat] comps))
      else
        (if path = [] then ''.''
         else
           (let initial_slashes =
                  (if startswith path ''/''
                   then (if startswith path ''//'' \<and> \<not> startswith path ''///''
                         then 2 else 1)
                   else (0::nat));
                comps = norm_comps (0 < initial_slashes) [] (split_where (is_sep plat) path);
                res = replicate initial_slashes (CHR ''/'') @ str_join ''/'' comps
            in if res = [] then ''.'' else res)))"

text \<open>
  \<^verbatim>\<open>abspath\<close> of the source: \<^verbatim>\<open>os.path.abspath\<close>, which normalises the path
  after joining it to the working directory. The working directory of the model
  is the root of the file tree below, so that only the normalisation is left.
\<close>

definition abspath :: "platform \<Rightarrow> string \<Rightarrow> string" where
  "abspath plat p = normpath plat p"

text \<open>\<^verbatim>\<open>s.lstrip(c)\<close> for one character.\<close>

definition lstrip_chr :: "char \<Rightarrow> string \<Rightarrow> string" where
  "lstrip_chr c s = dropWhile (\<lambda>x. x = c) s"

definition long_path_prefix :: string where
  "long_path_prefix = [CHR 0x5C, CHR 0x5C, CHR ''?'', CHR 0x5C]"

definition add_long_path_prefix :: "platform \<Rightarrow> string \<Rightarrow> string" where
  "add_long_path_prefix plat path =
     (if \<not> is_windows plat then path
      else
        (let p = abspath plat path
         in if startswith p long_path_prefix then p
            else if startswith p [CHR 0x5C, CHR 0x5C]
            then long_path_prefix @ ''UNC'' @ [CHR 0x5C] @ lstrip_chr (CHR 0x5C) p
            else long_path_prefix @ p))"

section \<open>The file system\<close>

text \<open>
  A tree of plain files and directories, a directory listing its entries in the
  order in which the system enumerates them. Names are case-sensitive and there
  are no links. A path names the node reached from the root by its normalised
  components, the drive being the first of them on Windows; the prefix
  \<^verbatim>\<open>\\?\\<close> names the same node as the path without it.
\<close>

datatype node = File string | Dir "(string \<times> node) list"

definition path_components :: "platform \<Rightarrow> string \<Rightarrow> string list" where
  "path_components plat p =
     (let q = (if is_windows plat \<and> startswith p long_path_prefix then drop 4 p else p)
      in norm_comps True [] (split_where (is_sep plat) q))"

fun fs_lookup :: "node \<Rightarrow> string list \<Rightarrow> node option" where
  "fs_lookup n [] = Some n"
| "fs_lookup n (c # cs) =
     (case n of
        File _ \<Rightarrow> None
      | Dir es \<Rightarrow> (case map_of es c of None \<Rightarrow> None | Some m \<Rightarrow> fs_lookup m cs))"

fun set_entry :: "string \<Rightarrow> node \<Rightarrow> (string \<times> node) list \<Rightarrow> (string \<times> node) list" where
  "set_entry c m [] = [(c, m)]"
| "set_entry c m ((k, v) # es) = (if k = c then (k, m) # es else (k, v) # set_entry c m es)"

text \<open>
  Writing a whole file: the parent must be a directory and the target must not
  be one; \<open>None\<close> is the \<^verbatim>\<open>OSError\<close> that \<^verbatim>\<open>open\<close> raises otherwise.
\<close>

fun write_at :: "string list \<Rightarrow> string \<Rightarrow> node \<Rightarrow> node option" where
  "write_at [] content n = (case n of File _ \<Rightarrow> Some (File content) | Dir _ \<Rightarrow> None)"
| "write_at (c # cs) content n =
     (case n of
        File _ \<Rightarrow> None
      | Dir es \<Rightarrow>
          (case map_of es c of
             None \<Rightarrow> (if cs = [] then Some (Dir (set_entry c (File content) es)) else None)
           | Some m \<Rightarrow>
               (case write_at cs content m of
                  None \<Rightarrow> None
                | Some m' \<Rightarrow> Some (Dir (set_entry c m' es)))))"

text \<open>\<^verbatim>\<open>os.makedirs(path, exist_ok=True)\<close>; \<open>None\<close> when a file is in the way.\<close>

fun makedirs_at :: "string list \<Rightarrow> node \<Rightarrow> node option" where
  "makedirs_at [] n = (case n of Dir _ \<Rightarrow> Some n | File _ \<Rightarrow> None)"
| "makedirs_at (c # cs) n =
     (case n of
        File _ \<Rightarrow> None
      | Dir es \<Rightarrow>
          (case makedirs_at cs (case map_of es c of None \<Rightarrow> Dir [] | Some m \<Rightarrow> m) of
             None \<Rightarrow> None
           | Some m' \<Rightarrow> Some (Dir (set_entry c m' es))))"

definition os_path_exists :: "platform \<Rightarrow> node \<Rightarrow> string \<Rightarrow> bool" where
  "os_path_exists plat fs p = (p \<noteq> [] \<and> fs_lookup fs (path_components plat p) \<noteq> None)"

definition os_path_isdir :: "platform \<Rightarrow> node \<Rightarrow> string \<Rightarrow> bool" where
  "os_path_isdir plat fs p =
     (p \<noteq> [] \<and> (case fs_lookup fs (path_components plat p) of
                   Some (Dir _) \<Rightarrow> True
                 | _ \<Rightarrow> False))"

definition os_path_isfile :: "platform \<Rightarrow> node \<Rightarrow> string \<Rightarrow> bool" where
  "os_path_isfile plat fs p =
     (p \<noteq> [] \<and> (case fs_lookup fs (path_components plat p) of
                   Some (File _) \<Rightarrow> True
                 | _ \<Rightarrow> False))"

text \<open>
  \<^verbatim>\<open>os.walk(dir)\<close>, top down: for each directory its path and the names of its
  entries that are not directories (the source ignores the second component of
  the triple, the names of the subdirectories).
\<close>

fun file_names :: "(string \<times> node) list \<Rightarrow> string list" where
  "file_names [] = []"
| "file_names ((n, File _) # es) = n # file_names es"
| "file_names ((n, Dir _) # es) = file_names es"

fun walk_node :: "platform \<Rightarrow> string \<Rightarrow> node \<Rightarrow> (string \<times> string list) list"
  and walk_entries :: "platform \<Rightarrow> string \<Rightarrow> (string \<times> node) list \<Rightarrow> (string \<times> string list) list"
where
  "walk_node plat dir (File _) = []"
| "walk_node plat dir (Dir es) = (dir, file_names es) # walk_entries plat dir es"
| "walk_entries plat dir [] = []"
| "walk_entries plat dir ((n, d) # es) =
     (case d of
        File _ \<Rightarrow> []
      | Dir _ \<Rightarrow> walk_node plat (path_join plat dir n) d)
     @ walk_entries plat dir es"

definition os_walk :: "platform \<Rightarrow> node \<Rightarrow> string \<Rightarrow> (string \<times> string list) list" where
  "os_walk plat fs dir =
     (if dir = [] then []
      else (case fs_lookup fs (path_components plat dir) of
              None \<Rightarrow> []
            | Some n \<Rightarrow> walk_node plat dir n))"

text \<open>\<^verbatim>\<open>os.listdir\<close> of a directory.\<close>

definition os_listdir :: "platform \<Rightarrow> node \<Rightarrow> string \<Rightarrow> string list option" where
  "os_listdir plat fs p =
     (if p = [] then None
      else (case fs_lookup fs (path_components plat p) of
              Some (Dir es) \<Rightarrow> Some (map fst es)
            | _ \<Rightarrow> None))"

section \<open>Version parsing and the keep-latest filter\<close>

definition is_digit :: "char \<Rightarrow> bool" where
  "is_digit c = (let n = (of_char c :: nat) in 48 \<le> n \<and> n \<le> 57)"

text \<open>
  The group of \<^verbatim>\<open>([0-9]+(?:\.[0-9]+)*)\<close> matched greedily at the start of a string
  whose first character is a digit: a digit is consumed, a dot is consumed when a
  digit follows it.
\<close>

fun dotted_digits :: "string \<Rightarrow> string" where
  "dotted_digits [] = []"
| "dotted_digits (c # cs) =
     (if is_digit c then c # dotted_digits cs
      else if c = CHR ''.'' \<and> (case cs of [] \<Rightarrow> False | d # _ \<Rightarrow> is_digit d)
           then c # dotted_digits cs
      else [])"

text \<open>
  \<^verbatim>\<open>re.search(r"guava-([0-9]+(?:\.[0-9]+)*)", name, flags=re.IGNORECASE)\<close>: the
  leftmost position where \<^verbatim>\<open>guava-\<close> (in any case) is followed by a digit; the
  result is group 1 there, \<open>None\<close> when there is no match.
\<close>

definition guava_match_here :: "string \<Rightarrow> string option" where
  "guava_match_here s =
     (if startswith (str_lower (take 6 s)) ''guava-''
         \<and> (case drop 6 s of [] \<Rightarrow> False | d # _ \<Rightarrow> is_digit d)
      then Some (dotted_digits (drop 6 s)) else None)"

fun re_search_guava :: "string \<Rightarrow> string option" where
  "re_search_guava [] = None"
| "re_search_guava (c # cs) =
     (case guava_match_here (c # cs) of
        Some ver \<Rightarrow> Some ver
      | None \<Rightarrow> re_search_guava cs)"

text \<open>
  \<^verbatim>\<open>int(p)\<close> on a string of ASCII digits; \<open>None\<close> is the \<^verbatim>\<open>ValueError\<close>. The
  segments the source converts are runs of digits, on which \<^verbatim>\<open>int\<close> fails only
  beyond the interpreter's limit on the number of digits (4300 by default).
\<close>

definition int_max_str_digits :: nat where
  "int_max_str_digits = 4300"

definition digit_val :: "char \<Rightarrow> int" where
  "digit_val c = int (of_char c) - 48"

definition py_int :: "string \<Rightarrow> int option" where
  "py_int p =
     (if p \<noteq> [] \<and> list_all is_digit p \<and> length p \<le> int_max_str_digits
      then Some (foldl (\<lambda>n c. 10 * n + digit_val c) 0 p) else None)"

text \<open>\<^verbatim>\<open>_extract_version_tuple_from_name\<close>; a tuple of ints is an \<open>int list\<close>.\<close>

definition extract_version_tuple_from_name :: "string \<Rightarrow> int list" where
  "extract_version_tuple_from_name name =
     (case re_search_guava name of
        None \<Rightarrow> [0]
      | Some ver \<Rightarrow>
          map (\<lambda>p. case py_int p of Some n \<Rightarrow> n | None \<Rightarrow> 0) (str_split (CHR ''.'') ver))"

text \<open>
  \<^verbatim>\<open>sorted(xs, key=f, reverse=True)\<close>: Python reverses the list, sorts it stably
  in ascending order and reverses it again, so equal keys keep their order. The
  keys are compared with the order of \<^verbatim>\<open>tuple\<close>, which is the lexicographic
  order on lists: componentwise, a proper prefix being smaller.
\<close>

definition sorted_reverse :: "('a \<Rightarrow> 'k::linorder) \<Rightarrow> 'a list \<Rightarrow> 'a list" where
  "sorted_reverse f xs = rev (sort_key f (rev xs))"

text \<open>The test \<^verbatim>\<open>"guava-" in os.path.basename(j).lower()\<close>.\<close>

definition is_guava :: "platform \<Rightarrow> string \<Rightarrow> bool" where
  "is_guava plat j = str_contains (str_lower (basename plat j)) ''guava-''"

definition guava_key :: "platform \<Rightarrow> string \<Rightarrow> int list" where
  "guava_key plat p = extract_version_tuple_from_name (basename plat p)"

text \<open>
  \<^verbatim>\<open>_filter_guava_keep_latest\<close>. The line it logs is \<open>guava_log_line\<close>, written
  to the log by the caller in this model.
\<close>

definition filter_guava_keep_latest :: "platform \<Rightarrow> string list \<Rightarrow> string list" where
  "filter_guava_keep_latest plat jars =
     (let guavas = filter (is_guava plat) jars
      in case guavas of
           [] \<Rightarrow> jars
         | g # _ \<Rightarrow>
             (let sorted_guavas = sorted_reverse (guava_key plat) guavas;
                  latest = (case sorted_guavas of s # _ \<Rightarrow> s | [] \<Rightarrow> g)
              in filter (\<lambda>j. \<not> is_guava plat j) jars @ [latest]))"

section \<open>The world of the launcher\<close>

text \<open>
  An exception is a value. Its text, \<^verbatim>\<open>str(e)\<close>, is the host's and the
  interpreter's, and is a parameter of the model (\<open>exc_text\<close> below).
\<close>

datatype exn =
    OSError string
  | BadZipFile string
  | UnboundLocalError string
  | LibraryError string

text \<open>
  The effects of the launcher are kept in a record that every operation takes
  and returns: the disk, the signals emitted to the window (\<^verbatim>\<open>Signals.status\<close>,
  \<^verbatim>\<open>progress\<close>, \<^verbatim>\<open>finished\<close>) in the order of emission, the records handed to
  the logger, and the commands started with \<^verbatim>\<open>subprocess.Popen\<close>.
\<close>

datatype level = DEBUG | INFO | WARNING | ERROR

datatype signal = Status string | Progress int | Finished bool string

record world =
  disk :: node
  signals :: "signal list"
  logged :: "(level \<times> string) list"
  spawned :: "string list list"

text \<open>
  What the launcher reads from outside itself is a second record, fixed during
  a run:
  \<^item> \<open>host\<close>, the platform;
  \<^item> \<open>denied\<close>, the path names that the system refuses to create or to open for
    writing (a lock, a permission, a name too long without the long-path prefix);
  \<^item> \<open>read_zip\<close>, the members of the archive that a file's content holds, \<open>None\<close>
    when \<^verbatim>\<open>ZipFile\<close> rejects it;
  \<^item> \<open>http_get\<close>, the answer of \<^verbatim>\<open>requests.get\<close> for a URL;
  \<^item> \<open>percent a b\<close>, the value of \<^verbatim>\<open>int(a / b * 100)\<close> in floating point;
  \<^item> \<open>exc_text\<close>, the text of an exception, and \<open>py_repr\<close>, the text of a list of
    strings inside an f-string;
  \<^item> \<open>environ\<close> and \<open>which\<close>, \<^verbatim>\<open>os.environ.get\<close> and \<^verbatim>\<open>shutil.which\<close>;
  \<^item> \<open>run_process\<close>, what \<^verbatim>\<open>Popen\<close> and \<^verbatim>\<open>communicate\<close> give for a command:
    an exception, or the return code with the two captured streams.
\<close>

text \<open>
  A member of an archive: its name and what reading it gives. \<^verbatim>\<open>z.open(member)\<close>
  raises for a member that is \<open>Unopenable\<close>; a \<open>Readable\<close> member yields all its
  bytes; a \<open>Broken\<close> member opens and yields some bytes, after which a read
  raises (a bad checksum, damaged data).
\<close>

datatype member_data = Readable string | Unopenable exn | Broken string exn

datatype member = Member (filename: string) (payload: member_data)

datatype http_response =
    Unreachable exn
  | Response (status_error: "exn option") (total_length: "exn + int")
      (body: "string list") (stream_error: "exn option")

record env =
  host :: platform
  denied :: "string \<Rightarrow> bool"
  read_zip :: "string \<Rightarrow> member list option"
  http_get :: "string \<Rightarrow> http_response"
  percent :: "int \<Rightarrow> int \<Rightarrow> int"
  exc_text :: "exn \<Rightarrow> string"
  py_repr :: "string list \<Rightarrow> string"
  environ :: "string \<Rightarrow> string option"
  which :: "string \<Rightarrow> string option"
  run_process :: "string list \<Rightarrow> exn + (int \<times> string \<times> string)"

text \<open>The attributes of \<^verbatim>\<open>LauncherWindow\<close> that the launch reads.\<close>

record launcher =
  username :: string
  memory_gb :: int
  java_path :: "string option"

definition on_status_emit :: "string \<Rightarrow> world \<Rightarrow> world" where
  "on_status_emit text w = w\<lparr>signals := signals w @ [Status text]\<rparr>"

definition on_progress_emit :: "int \<Rightarrow> world \<Rightarrow> world" where
  "on_progress_emit v w = w\<lparr>signals := signals w @ [Progress v]\<rparr>"

definition on_finished_emit :: "bool \<Rightarrow> string \<Rightarrow> world \<Rightarrow> world" where
  "on_finished_emit ok msg w = w\<lparr>signals := signals w @ [Finished ok msg]\<rparr>"

text \<open>
  \<^verbatim>\<open>logger.debug\<close>, \<^verbatim>\<open>info\<close>, \<^verbatim>\<open>warning\<close> and \<^verbatim>\<open>error\<close>; \<^verbatim>\<open>logger.exception\<close>
  is a record of level \<open>ERROR\<close>.
\<close>

definition logger :: "level \<Rightarrow> string \<Rightarrow> world \<Rightarrow> world" where
  "logger lvl msg w = w\<lparr>logged := logged w @ [(lvl, msg)]\<rparr>"

text \<open>An optional callback, called when it is given.\<close>

definition call_back :: "('a \<Rightarrow> world \<Rightarrow> world) option \<Rightarrow> 'a \<Rightarrow> world \<Rightarrow> world" where
  "call_back cb x w = (case cb of None \<Rightarrow> w | Some f \<Rightarrow> f x w)"

subsection \<open>Files\<close>

definition os_makedirs :: "env \<Rightarrow> node \<Rightarrow> string \<Rightarrow> exn + node" where
  "os_makedirs env d p =
     (if p = [] \<or> denied env p then Inl (OSError p)
      else (case makedirs_at (path_components (host env) p) d of
              None \<Rightarrow> Inl (OSError p)
            | Some d' \<Rightarrow> Inr d'))"

text \<open>
  \<^verbatim>\<open>open(p, "w")\<close> or \<^verbatim>\<open>open(p, "wb")\<close>, the writing of the whole content and the
  closing of the file. The content is the text handed to \<^verbatim>\<open>write\<close>.
\<close>

definition open_write :: "env \<Rightarrow> node \<Rightarrow> string \<Rightarrow> string \<Rightarrow> exn + node" where
  "open_write env d p content =
     (if p = [] \<or> denied env p then Inl (OSError p)
      else (case write_at (path_components (host env) p) content d of
              None \<Rightarrow> Inl (OSError p)
            | Some d' \<Rightarrow> Inr d'))"

definition read_file :: "platform \<Rightarrow> node \<Rightarrow> string \<Rightarrow> exn + string" where
  "read_file plat d p =
     (if p = [] then Inl (OSError p)
      else (case fs_lookup d (path_components plat p) of
              Some (File content) \<Rightarrow> Inr content
            | _ \<Rightarrow> Inl (OSError p)))"

definition safe_makedirs :: "env \<Rightarrow> string \<Rightarrow> world \<Rightarrow> world" where
  "safe_makedirs env path w =
     (case os_makedirs env (disk w)
             (if is_windows (host env) then add_long_path_prefix (host env) path else path) of
        Inr d \<Rightarrow> w\<lparr>disk := d\<rparr>
      | Inl e \<Rightarrow>
          (let w1 = logger DEBUG (''safe_makedirs fallback: '' @ exc_text env e) w
           in case os_makedirs env (disk w1) path of
                Inr d \<Rightarrow> w1\<lparr>disk := d\<rparr>
              | Inl e2 \<Rightarrow> logger ERROR (''safe_makedirs failed: '' @ exc_text env e2) w1))"

subsection \<open>Configuration\<close>

definition GAME_VERSION :: string where
  "GAME_VERSION = ''1.16.5''"

definition CLIENT_DIR :: string where
  "CLIENT_DIR = ''C:'' @ [CHR 0x5C] @ ''penjs''"

definition GAME_DIR :: string where
  "GAME_DIR = ''C:'' @ [CHR 0x5C] @ ''penjs''"

definition CLIENT_ZIP_PATH :: string where
  "CLIENT_ZIP_PATH = ''C:'' @ [CHR 0x5C] @ ''penjs'' @ [CHR 0x5C] @ ''SwiftDlc.zip''"

definition CLIENT_ZIP_URL :: string where
  "CLIENT_ZIP_URL =
     ''https://dl.dropboxusercontent.com/scl/fi/6fmf6u1dm1gyst0cnadxq/SwiftDLC.zip?rlkey=cs2yi2lti95kw2ukbwzwin3t1''"

definition EXTRACTION_MARKER :: string where
  "EXTRACTION_MARKER = ''.extracted_ok''"

definition REQUIRED_PATHS :: "platform \<Rightarrow> string list" where
  "REQUIRED_PATHS plat =
     [os_path_join plat ''swiftdlc'' [''game'', ''versions'', GAME_VERSION, GAME_VERSION @ ''.jar''],
      os_path_join plat ''swiftdlc'' [''libraries'']]"

subsection \<open>The archive fetcher\<close>

text \<open>The \<^verbatim>\<open>except\<close> branch of \<^verbatim>\<open>download_file\<close>.\<close>

definition download_failed ::
  "env \<Rightarrow> (string \<Rightarrow> world \<Rightarrow> world) option \<Rightarrow> exn \<Rightarrow> world \<Rightarrow> bool \<times> world" where
  "download_failed env status_callback e w =
     (let w1 = logger ERROR (''download_file error: '' @ exc_text env e) w;
          w2 = call_back status_callback (''Download failed: '' @ exc_text env e) w1
      in (False, w2))"

text \<open>\<^verbatim>\<open>f.write(chunk)\<close> on the open file: the chunk is added at its end.\<close>

definition append_file :: "platform \<Rightarrow> string \<Rightarrow> string \<Rightarrow> node \<Rightarrow> node" where
  "append_file plat p chunk d =
     (case fs_lookup d (path_components plat p) of
        Some (File content) \<Rightarrow>
          (case write_at (path_components plat p) (content @ chunk) d of
             Some d' \<Rightarrow> d'
           | None \<Rightarrow> d)
      | _ \<Rightarrow> d)"

text \<open>The loop over \<^verbatim>\<open>r.iter_content\<close>.\<close>

fun write_chunks ::
  "env \<Rightarrow> (int \<Rightarrow> world \<Rightarrow> world) option \<Rightarrow> string \<Rightarrow> int \<Rightarrow> string list \<Rightarrow> int \<Rightarrow> world \<Rightarrow> world"
where
  "write_chunks env progress_callback dest_path tot [] downloaded w = w"
| "write_chunks env progress_callback dest_path tot (chunk # chunks) downloaded w =
     (if chunk = [] then write_chunks env progress_callback dest_path tot chunks downloaded w
      else
        (let w1 = w\<lparr>disk := append_file (host env) dest_path chunk (disk w)\<rparr>;
             downloaded' = downloaded + int (length chunk);
             w2 = (if tot \<noteq> 0
                   then call_back progress_callback (percent env downloaded' tot) w1
                   else w1)
         in write_chunks env progress_callback dest_path tot chunks downloaded' w2))"

text \<open>
  \<^verbatim>\<open>download_file\<close>. The response lists the chunks received before the stream
  ends or breaks; \<open>total_length\<close> is the outcome of
  \<^verbatim>\<open>int(r.headers.get("content-length", 0) or 0)\<close>.
\<close>

definition download_file ::
  "env \<Rightarrow> string \<Rightarrow> string \<Rightarrow> (int \<Rightarrow> world \<Rightarrow> world) option
     \<Rightarrow> (string \<Rightarrow> world \<Rightarrow> world) option \<Rightarrow> world \<Rightarrow> bool \<times> world" where
  "download_file env url dest_path progress_callback status_callback w =
     (let w0 = safe_makedirs env (dirname (host env) dest_path) w
      in case http_get env url of
           Unreachable e \<Rightarrow> download_failed env status_callback e w0
         | Response status total_len chunks broken \<Rightarrow>
             (case status of
                Some e \<Rightarrow> download_failed env status_callback e w0
              | None \<Rightarrow>
                  (case total_len of
                     Inl e \<Rightarrow> download_failed env status_callback e w0
                   | Inr tot \<Rightarrow>
                       (case open_write env (disk w0) dest_path [] of
                          Inl e \<Rightarrow> download_failed env status_callback e w0
                        | Inr d \<Rightarrow>
                            (let w1 = write_chunks env progress_callback dest_path tot
                                        chunks 0 (w0\<lparr>disk := d\<rparr>)
                             in case broken of
                                  Some e \<Rightarrow> download_failed env status_callback e w1
                                | None \<Rightarrow>
                                    (let w2 = call_back status_callback ''Download complete'' w1;
                                         w3 = logger INFO
                                                (''Downloaded: '' @ url @ '' -> '' @ dest_path) w2
                                     in (True, w3)))))))"

subsection \<open>The archive extractor\<close>

text \<open>\<^verbatim>\<open>ZipFile(zip_path, "r")\<close> and \<^verbatim>\<open>z.infolist()\<close>.\<close>

definition open_zip :: "env \<Rightarrow> node \<Rightarrow> string \<Rightarrow> exn + member list" where
  "open_zip env d zip_path =
     (case read_file (host env) d zip_path of
        Inl e \<Rightarrow> Inl e
      | Inr content \<Rightarrow>
          (case read_zip env content of
             None \<Rightarrow> Inl (BadZipFile zip_path)
           | Some members \<Rightarrow> Inr members))"

text \<open>
  \<^verbatim>\<open>with z.open(member, "r") as src, open(path, "wb") as dst: shutil.copyfileobj(src, dst)\<close>.
  The member is opened first, then the destination, which is created or
  truncated, then the bytes are copied. The result is the exception raised, if
  any, and the disk: untouched when the member or the destination cannot be
  opened, holding the bytes copied so far when a read raises afterwards.
\<close>

definition write_member :: "env \<Rightarrow> member \<Rightarrow> string \<Rightarrow> node \<Rightarrow> exn option \<times> node" where
  "write_member env m path d =
     (case payload m of
        Unopenable e \<Rightarrow> (Some e, d)
      | Readable content \<Rightarrow>
          (case open_write env d path content of
             Inl e \<Rightarrow> (Some e, d)
           | Inr d' \<Rightarrow> (None, d'))
      | Broken copied e \<Rightarrow>
          (case open_write env d path copied of
             Inl e' \<Rightarrow> (Some e', d)
           | Inr d' \<Rightarrow> (Some e, d')))"

definition str_replace_chr :: "char \<Rightarrow> char \<Rightarrow> string \<Rightarrow> string" where
  "str_replace_chr a b s = map (\<lambda>c. if c = a then b else c) s"

text \<open>The path at which a member is written.\<close>

definition member_name_norm :: "platform \<Rightarrow> member \<Rightarrow> string" where
  "member_name_norm plat m =
     str_replace_chr (CHR 0x5C) (os_sep plat) (str_replace_chr (CHR ''/'') (os_sep plat) (filename m))"

definition member_target :: "platform \<Rightarrow> string \<Rightarrow> member \<Rightarrow> string" where
  "member_target plat target_dir m =
     normpath plat (path_join plat target_dir (member_name_norm plat m))"

text \<open>
  The two attempts to write one member: the path with the long-path prefix
  first, the plain path when that fails; when both fail the member is skipped
  with a record of level \<open>ERROR\<close>.
\<close>

definition write_entry :: "env \<Rightarrow> member \<Rightarrow> string \<Rightarrow> world \<Rightarrow> world" where
  "write_entry env m target_path w =
     (case write_member env m (add_long_path_prefix (host env) target_path) (disk w) of
        (None, d) \<Rightarrow> w\<lparr>disk := d\<rparr>
      | (Some e, d) \<Rightarrow>
          (let w1 = logger DEBUG
                      (''Primary extract failed for '' @ filename m @ '': '' @ exc_text env e)
                      (w\<lparr>disk := d\<rparr>)
           in case write_member env m target_path (disk w1) of
                (None, d2) \<Rightarrow> w1\<lparr>disk := d2\<rparr>
              | (Some e2, d2) \<Rightarrow>
                  logger ERROR
                    (''Failed to extract '' @ filename m @ '': '' @ exc_text env e2)
                    (w1\<lparr>disk := d2\<rparr>)))"

text \<open>The parent directory of a member's target is created first.\<close>

definition prepare_parent :: "env \<Rightarrow> string \<Rightarrow> member \<Rightarrow> world \<Rightarrow> world" where
  "prepare_parent env target_dir m w =
     (let parent = dirname (host env) (member_target (host env) target_dir m)
      in if parent \<noteq> [] then safe_makedirs env parent w else w)"

text \<open>
  The body of the loop of \<^verbatim>\<open>extract_zip_manual\<close> for the member of index \<open>idx\<close>
  (from 1), and the loop; \<open>extracted\<close> counts the members that are not
  directories.
\<close>

definition extract_member ::
  "env \<Rightarrow> string \<Rightarrow> (int \<Rightarrow> world \<Rightarrow> world) option \<Rightarrow> (string \<Rightarrow> world \<Rightarrow> world) option
     \<Rightarrow> nat \<Rightarrow> nat \<Rightarrow> member \<Rightarrow> nat \<Rightarrow> world \<Rightarrow> nat \<times> world" where
  "extract_member env target_dir progress_callback status_callback tot idx m extracted w =
     (let plat = host env;
          w1 = prepare_parent env target_dir m w
      in if endswith (member_name_norm plat m) [os_sep plat] then (extracted, w1)
         else
           (let w2 = write_entry env m (member_target plat target_dir m) w1;
                extracted' = extracted + 1;
                w3 = call_back progress_callback (percent env (int extracted') (int tot)) w2;
                w4 = call_back status_callback
                       (''Extracting '' @ str_nat idx @ ''/'' @ str_nat tot) w3
            in (extracted', w4)))"

fun extract_members ::
  "env \<Rightarrow> string \<Rightarrow> (int \<Rightarrow> world \<Rightarrow> world) option \<Rightarrow> (string \<Rightarrow> world \<Rightarrow> world) option
     \<Rightarrow> nat \<Rightarrow> nat \<Rightarrow> member list \<Rightarrow> nat \<Rightarrow> world \<Rightarrow> nat \<times> world" where
  "extract_members env target_dir pc sc tot idx [] extracted w = (extracted, w)"
| "extract_members env target_dir pc sc tot idx (m # ms) extracted w =
     (case extract_member env target_dir pc sc tot idx m extracted w of
        (extracted', w') \<Rightarrow> extract_members env target_dir pc sc tot (idx + 1) ms extracted' w')"

text \<open>The marker: \<^verbatim>\<open>m.write("ok")\<close>, any exception being passed over.\<close>

definition write_marker :: "env \<Rightarrow> string \<Rightarrow> world \<Rightarrow> world" where
  "write_marker env target_dir w =
     (let marker = path_join (host env) target_dir EXTRACTION_MARKER
      in case open_write env (disk w) (add_long_path_prefix (host env) marker) ''ok'' of
           Inr d \<Rightarrow> w\<lparr>disk := d\<rparr>
         | Inl e \<Rightarrow> w)"

text \<open>The world after the loop; \<^verbatim>\<open>total = len(members) or 1\<close>.\<close>

definition extract_all ::
  "env \<Rightarrow> string \<Rightarrow> (int \<Rightarrow> world \<Rightarrow> world) option \<Rightarrow> (string \<Rightarrow> world \<Rightarrow> world) option
     \<Rightarrow> member list \<Rightarrow> world \<Rightarrow> world" where
  "extract_all env target_dir progress_callback status_callback members w =
     snd (extract_members env target_dir progress_callback status_callback
            (if length members = 0 then 1 else length members) 1 members 0 w)"

definition extract_zip_manual ::
  "env \<Rightarrow> string \<Rightarrow> string \<Rightarrow> (int \<Rightarrow> world \<Rightarrow> world) option
     \<Rightarrow> (string \<Rightarrow> world \<Rightarrow> world) option \<Rightarrow> world \<Rightarrow> bool \<times> world" where
  "extract_zip_manual env zip_path target_dir progress_callback status_callback w =
     (case open_zip env (disk w) zip_path of
        Inl e \<Rightarrow> (False, logger ERROR (''extract_zip_manual error: '' @ exc_text env e) w)
      | Inr members \<Rightarrow>
          (let w1 = extract_all env target_dir progress_callback status_callback members w;
               w2 = write_marker env target_dir w1;
               w3 = logger INFO (''Extracted archive '' @ zip_path @ '' -> '' @ target_dir) w2
           in (True, w3)))"

subsection \<open>The required-file verifier\<close>

text \<open>
  The search for a jar under the libraries directory: the two nested loops of
  \<^verbatim>\<open>_check_required_files\<close> with their flag \<^verbatim>\<open>found\<close>.
\<close>

definition has_jar :: "(string \<times> string list) list \<Rightarrow> bool" where
  "has_jar walked = list_ex (\<lambda>(root, files). list_ex (\<lambda>fn. endswith fn ''.jar'') files) walked"

definition libraries_dir :: "platform \<Rightarrow> string" where
  "libraries_dir plat = os_path_join plat GAME_DIR [''swiftdlc'', ''game'', ''libraries'']"

definition version_jar :: "platform \<Rightarrow> string" where
  "version_jar plat =
     os_path_join plat GAME_DIR
       [''swiftdlc'', ''game'', ''versions'', GAME_VERSION, GAME_VERSION @ ''.jar'']"

text \<open>
  What one entry of \<^verbatim>\<open>REQUIRED_PATHS\<close> adds to the lists \<^verbatim>\<open>missing\<close> and
  \<^verbatim>\<open>details\<close>, as pairs. \<^verbatim>\<open>rel.endswith((a, b, c))\<close> holds when \<^verbatim>\<open>rel\<close> ends
  with one of the three.
\<close>

definition check_required_path :: "platform \<Rightarrow> node \<Rightarrow> string \<Rightarrow> (string \<times> string) list" where
  "check_required_path plat d rel =
     (if endswith rel ''swiftdlc'' \<or> endswith rel ''game'' \<or> endswith rel ''libraries''
      then
        (let p = os_path_join plat GAME_DIR [''swiftdlc'', ''game'', ''libraries'']
         in if \<not> os_path_isdir plat d p then [(p, ''Missing directory: '' @ p)]
            else if \<not> has_jar (os_walk plat d p)
            then [(p @ '' (no jars)'', ''No .jar files found under: '' @ p)]
            else [])
      else
        (let p = path_join plat GAME_DIR rel
         in if \<not> os_path_exists plat d p then [(p, ''Missing path: '' @ p)] else []))"

text \<open>The unconditional check of the version jar that ends the function.\<close>

definition check_version_jar :: "platform \<Rightarrow> node \<Rightarrow> (string \<times> string) list" where
  "check_version_jar plat d =
     (if \<not> os_path_exists plat d (version_jar plat)
      then [(version_jar plat, ''Missing version jar: '' @ version_jar plat)]
      else [])"

definition missing_items :: "platform \<Rightarrow> node \<Rightarrow> (string \<times> string) list" where
  "missing_items plat d =
     concat (map (check_required_path plat d) (REQUIRED_PATHS plat)) @ check_version_jar plat d"

text \<open>\<^verbatim>\<open>_check_required_files\<close>: the list \<^verbatim>\<open>missing\<close>, and the world with its log.\<close>

definition check_required_files :: "env \<Rightarrow> world \<Rightarrow> string list \<times> world" where
  "check_required_files env w =
     (let items = missing_items (host env) (disk w);
          missing = map fst items;
          details = map snd items
      in if missing \<noteq> []
         then (missing,
               foldl (\<lambda>w' d. logger ERROR d w')
                 (logger ERROR (''Missing files: '' @ py_repr env missing) w) details)
         else (missing, w))"

subsection \<open>The search for the interpreter\<close>

definition java_name :: "platform \<Rightarrow> string" where
  "java_name plat = (if is_windows plat then ''java.exe'' else ''java'')"

text \<open>The loop over \<^verbatim>\<open>os.listdir(client_dir)\<close>.\<close>

fun find_bundled_java :: "platform \<Rightarrow> node \<Rightarrow> string \<Rightarrow> string list \<Rightarrow> string option" where
  "find_bundled_java plat d client_dir [] = None"
| "find_bundled_java plat d client_dir (entry # entries) =
     (if startswith (str_lower entry) ''jre'' \<or> startswith (str_lower entry) ''jdk''
      then
        (let candidate = os_path_join plat client_dir [entry, ''bin'', java_name plat]
         in if os_path_exists plat d candidate then Some candidate
            else find_bundled_java plat d client_dir entries)
      else find_bundled_java plat d client_dir entries)"

text \<open>\<^verbatim>\<open>a or b\<close> on two optional strings: \<^verbatim>\<open>a\<close> when it is not empty.\<close>

definition str_or :: "string option \<Rightarrow> string option \<Rightarrow> string option" where
  "str_or a b = (case a of None \<Rightarrow> b | Some s \<Rightarrow> (if s = [] then b else Some s))"

definition find_java_executable :: "env \<Rightarrow> string \<Rightarrow> world \<Rightarrow> string option \<times> world" where
  "find_java_executable env client_dir w =
     (let plat = host env;
          bundled =
            (if os_path_isdir plat (disk w) client_dir
             then (case os_listdir plat (disk w) client_dir of
                     None \<Rightarrow> None
                   | Some entries \<Rightarrow> find_bundled_java plat (disk w) client_dir entries)
             else None)
      in case bundled of
           Some candidate \<Rightarrow> (Some candidate, logger INFO (''Found bundled java: '' @ candidate) w)
         | None \<Rightarrow>
             (let in_home =
                    (case str_or (environ env ''JAVA_HOME'') (environ env ''JDK_HOME'') of
                       None \<Rightarrow> None
                     | Some java_home \<Rightarrow>
                         (if java_home = [] then None
                          else
                            (let candidate = os_path_join plat java_home [''bin'', java_name plat]
                             in if os_path_exists plat (disk w) candidate then Some candidate
                                else None)))
              in case in_home of
                   Some candidate \<Rightarrow>
                     (Some candidate, logger INFO (''Found java in JAVA_HOME: '' @ candidate) w)
                 | None \<Rightarrow>
                     (case which env ''java'' of
                        Some p \<Rightarrow>
                          (if p \<noteq> [] then (Some p, logger INFO (''Found java in PATH: '' @ p) w)
                           else (None, logger WARNING ''Java not found'' w))
                      | None \<Rightarrow> (None, logger WARNING ''Java not found'' w))))"

subsection \<open>The launch orchestrator\<close>

text \<open>
  The restore of \<^verbatim>\<open>launch_procedure\<close>, entered when the first check reports
  missing items: extraction of the local archive when it exists, download and
  extraction otherwise. The result is \<open>False\<close> when the procedure has emitted
  \<^verbatim>\<open>finished\<close> and returns.
\<close>

definition restore_client :: "env \<Rightarrow> world \<Rightarrow> bool \<times> world" where
  "restore_client env w =
     (if os_path_exists (host env) (disk w) CLIENT_ZIP_PATH
      then
        (case extract_zip_manual env CLIENT_ZIP_PATH CLIENT_DIR
                (Some on_progress_emit) (Some on_status_emit) w of
           (ok, w1) \<Rightarrow>
             (if \<not> ok
              then (False, on_finished_emit False ''Extraction from local archive failed'' w1)
              else (True, w1)))
      else
        (case download_file env CLIENT_ZIP_URL CLIENT_ZIP_PATH
                (Some on_progress_emit) (Some on_status_emit) w of
           (ok, w1) \<Rightarrow>
             (if \<not> ok then (False, on_finished_emit False ''Download failed'' w1)
              else
                (case extract_zip_manual env CLIENT_ZIP_PATH CLIENT_DIR
                        (Some on_progress_emit) (Some on_status_emit) w1 of
                   (ok2, w2) \<Rightarrow>
                     (if \<not> ok2 then (False, on_finished_emit False ''Extraction failed'' w2)
                      else (True, w2))))))"

text \<open>
  The first part of \<^verbatim>\<open>launch_procedure\<close>, up to the comment
  \<^verbatim>\<open># Build classpath list\<close>: the check, the restore and the second check. The
  result is \<open>True\<close> when the procedure goes on to build the class path.
\<close>

definition still_missing_msg :: "string list \<Rightarrow> string" where
  "still_missing_msg missing2 =
     ''Still missing '' @ str_nat (length missing2) @ '' items after extraction:''
       @ [CHR 0x0A] @ str_join [CHR 0x0A] missing2"

definition ensure_required_files :: "env \<Rightarrow> world \<Rightarrow> bool \<times> world" where
  "ensure_required_files env w =
     (let w0 = on_status_emit ''Preparing launch...'' w
      in case check_required_files env w0 of
           (missing, w1) \<Rightarrow>
             (if missing \<noteq> []
              then
                (let w2 = on_status_emit
                            (''Missing '' @ str_nat (length missing) @ '' items. Trying to restore...'')
                            w1
                 in case restore_client env w2 of
                      (ok, w3) \<Rightarrow>
                        (if \<not> ok then (False, w3)
                         else
                           (case check_required_files env w3 of
                              (missing2, w4) \<Rightarrow>
                                (if missing2 \<noteq> []
                                 then (False,
                                       on_finished_emit False (still_missing_msg missing2)
                                         (logger ERROR (still_missing_msg missing2) w4))
                                 else (True, w4)))))
              else (True, on_status_emit ''All required files present'' w1)))"

text \<open>The jars that a walk yields, in its order.\<close>

definition jars_of_walk :: "platform \<Rightarrow> (string \<times> string list) list \<Rightarrow> string list" where
  "jars_of_walk plat walked =
     concat (map (\<lambda>(root, files).
                    map (path_join plat root) (filter (\<lambda>fn. endswith fn ''.jar'') files))
                 walked)"

text \<open>The three passes that build the list \<^verbatim>\<open>jars\<close>.\<close>

definition library_jars :: "platform \<Rightarrow> node \<Rightarrow> string list" where
  "library_jars plat d =
     (if os_path_isdir plat d (libraries_dir plat)
      then jars_of_walk plat (os_walk plat d (libraries_dir plat)) else [])"

definition version_jars :: "platform \<Rightarrow> node \<Rightarrow> string list" where
  "version_jars plat d = (if os_path_exists plat d (version_jar plat) then [version_jar plat] else [])"

definition client_jars :: "platform \<Rightarrow> node \<Rightarrow> string list" where
  "client_jars plat d =
     (if os_path_isdir plat d CLIENT_DIR
      then jars_of_walk plat (os_walk plat d CLIENT_DIR) else [])"

definition collect_jars :: "platform \<Rightarrow> node \<Rightarrow> string list" where
  "collect_jars plat d = library_jars plat d @ version_jars plat d @ client_jars plat d"

text \<open>The line that \<^verbatim>\<open>_filter_guava_keep_latest\<close> logs when it has found a guava.\<close>

definition guava_log_line :: "platform \<Rightarrow> string list \<Rightarrow> string list \<Rightarrow> string" where
  "guava_log_line plat jars kept =
     ''Guava jars found: '' @ str_nat (length (filter (is_guava plat) jars))
       @ '' files; using: ''
       @ (case rev kept of [] \<Rightarrow> [] | latest # _ \<Rightarrow> basename plat latest)"

text \<open>The text written to \<^verbatim>\<open>args.txt\<close>.\<close>

definition args_text :: "platform \<Rightarrow> launcher \<Rightarrow> string \<Rightarrow> string" where
  "args_text plat self classpath =
     ''-Xmx'' @ str_int (memory_gb self * 1024) @ ''m'' @ [CHR 0x0A]
     @ ''--enable-native-access=ALL-UNNAMED'' @ [CHR 0x0A]
     @ ''-cp'' @ [CHR 0x0A]
     @ classpath @ [CHR 0x0A]
     @ ''net.minecraft.client.main.Main'' @ [CHR 0x0A]
     @ ''--version '' @ GAME_VERSION @ [CHR 0x0A]
     @ ''--gameDir '' @ GAME_DIR @ [CHR 0x0A]
     @ ''--assetsDir '' @ os_path_join plat GAME_DIR [''swiftdlc'', ''game'', ''assets''] @ [CHR 0x0A]
     @ ''--assetIndex 1.16'' @ [CHR 0x0A]
     @ ''--username '' @ username self @ [CHR 0x0A]
     @ ''--accessToken 0'' @ [CHR 0x0A]"

definition args_path :: "platform \<Rightarrow> string" where
  "args_path plat = path_join plat GAME_DIR ''args.txt''"

text \<open>
  Reading a local variable of a Python function: a name that the function
  assigns somewhere is local in all of its body, and reading it before the
  assignment has run raises \<^verbatim>\<open>UnboundLocalError\<close>.
\<close>

definition read_local :: "string \<Rightarrow> 'a option \<Rightarrow> exn + 'a" where
  "read_local name v = (case v of None \<Rightarrow> Inl (UnboundLocalError name) | Some x \<Rightarrow> Inr x)"

text \<open>
  The end of \<^verbatim>\<open>launch_procedure\<close>, from the record \<^verbatim>\<open>Java executable\<close> on: the
  command, the process, its exit status. The first component of the result is
  the exception that leaves the procedure, if any.
\<close>

definition run_java :: "env \<Rightarrow> string \<Rightarrow> world \<Rightarrow> exn option \<times> world" where
  "run_java env java_exec w =
     (let plat = host env;
          w1 = logger INFO (''Java executable: '' @ java_exec) w;
          w2 = logger INFO (''Args file: '' @ args_path plat) w1
      in case (if os_path_exists plat (disk w2) (args_path plat)
               then (case read_file plat (disk w2) (args_path plat) of
                       Inl e \<Rightarrow> Inl e
                     | Inr content \<Rightarrow>
                         Inr (logger INFO (''Args file content:'' @ [CHR 0x0A] @ content) w2))
               else Inr (logger ERROR ''Args file not found!'' w2)) of
           Inl e \<Rightarrow> (Some e, w2)
         | Inr w3 \<Rightarrow>
             (let cmd = [java_exec, ''@'' @ args_path plat];
                  w4 = on_status_emit ''Launching Java process...'' w3
              in case run_process env cmd of
                   Inl e \<Rightarrow>
                     (None, on_finished_emit False (''Launch failed: '' @ exc_text env e)
                              (logger ERROR ''Launch exception'' w4))
                 | Inr (returncode, out, err) \<Rightarrow>
                     (let w5 = w4\<lparr>spawned := spawned w4 @ [cmd]\<rparr>;
                          w6 = (if out \<noteq> [] then logger INFO (''Java stdout: '' @ take 1000 out) w5
                                else w5);
                          w7 = (if err \<noteq> [] then logger ERROR (''Java stderr: '' @ take 2000 err) w6
                                else w6)
                      in if returncode = 0
                         then (None, on_finished_emit True ''Client finished successfully.'' w7)
                         else (None,
                               on_finished_emit False
                                 (''Launch failed with exit code '' @ str_int returncode)
                                 (logger ERROR
                                    (''Java process exited with code: '' @ str_int returncode)
                                    w7)))))"

text \<open>
  The second part of \<^verbatim>\<open>launch_procedure\<close>, in three steps. First the class
  path and \<^verbatim>\<open>args.txt\<close>: the result is the exception of the \<^verbatim>\<open>except\<close>
  branch, with the world in which it was raised, or the world after the status
  \<^verbatim>\<open>args.txt written\<close>.
\<close>

definition write_args_file :: "env \<Rightarrow> launcher \<Rightarrow> world \<Rightarrow> (exn \<times> world) + world" where
  "write_args_file env self w =
     (let plat = host env;
          jars = collect_jars plat (disk w);
          w1 = foldl (\<lambda>w' j. logger INFO (''  '' @ j) w')
                 (logger INFO ''Collected classpath jars:'' w) jars;
          jars' = filter_guava_keep_latest plat jars;
          w2 = (if filter (is_guava plat) jars \<noteq> []
                then logger INFO (guava_log_line plat jars jars') w1 else w1);
          classpath = str_join [os_pathsep plat] jars';
          w3 = safe_makedirs env (dirname plat (args_path plat)) w2
      in case open_write env (disk w3) (args_path plat) (args_text plat self classpath) of
           Inl e \<Rightarrow> Inl (e, w3)
         | Inr d \<Rightarrow> Inr (on_status_emit ''args.txt written'' (w3\<lparr>disk := d\<rparr>)))"

text \<open>Then \<^verbatim>\<open>java_exec = self.java_path or find_java_executable()\<close>.\<close>

definition resolve_java :: "env \<Rightarrow> launcher \<Rightarrow> world \<Rightarrow> string option \<times> world" where
  "resolve_java env self w =
     (case str_or (java_path self) None of
        Some p \<Rightarrow> (Some p, w)
      | None \<Rightarrow> find_java_executable env CLIENT_DIR w)"

text \<open>The test \<^verbatim>\<open>not java_exec or not os.path.exists(java_exec)\<close>.\<close>

definition java_unusable :: "platform \<Rightarrow> node \<Rightarrow> string option \<Rightarrow> bool" where
  "java_unusable plat d java_exec =
     (case java_exec of
        None \<Rightarrow> True
      | Some j \<Rightarrow> j = [] \<or> \<not> os_path_exists plat d j)"

text \<open>
  Last the launch. Where the source logs \<^verbatim>\<open>Launch command: {cmd}\<close> the local
  variable \<^verbatim>\<open>cmd\<close> has not been assigned yet: its assignment comes after that
  line.
\<close>

definition assemble_and_launch :: "env \<Rightarrow> launcher \<Rightarrow> world \<Rightarrow> exn option \<times> world" where
  "assemble_and_launch env self w =
     (case write_args_file env self w of
        Inl (e, w3) \<Rightarrow>
          (None, on_finished_emit False (''Failed to write args.txt: '' @ exc_text env e)
                   (logger ERROR ''Failed to write args.txt'' w3))
      | Inr w4 \<Rightarrow>
          (case resolve_java env self w4 of
             (java_exec, w5) \<Rightarrow>
               (if java_unusable (host env) (disk w5) java_exec
                then (None, on_finished_emit False ''Java not found. Set path in Settings.'' w5)
                else
                  (case read_local ''cmd'' (None :: string list option) of
                     Inl e \<Rightarrow> (Some e, w5)
                   | Inr cmd \<Rightarrow>
                       run_java env (case java_exec of Some j \<Rightarrow> j | None \<Rightarrow> [])
                         (logger INFO (''Launch command: '' @ py_repr env cmd) w5)))))"

text \<open>
  \<^verbatim>\<open>launch_procedure\<close>: the two parts in sequence. The first component of the
  result is the exception that leaves the procedure, if any. The lock
  \<^verbatim>\<open>_bg_lock\<close> that the procedure holds serialises the runs of one launcher;
  the model is that of a single run.
\<close>

definition launch_procedure :: "env \<Rightarrow> launcher \<Rightarrow> world \<Rightarrow> exn option \<times> world" where
  "launch_procedure env self w =
     (case ensure_required_files env w of
        (proceed, w1) \<Rightarrow>
          (if proceed then assemble_and_launch env self w1 else (None, w1)))"

text \<open>
  The wrapper of \<^verbatim>\<open>_background\<close>, which runs the target in a thread and turns
  an exception that leaves it into a failed \<^verbatim>\<open>finished\<close>.
\<close>

definition background :: "env \<Rightarrow> (world \<Rightarrow> exn option \<times> world) \<Rightarrow> world \<Rightarrow> world" where
  "background env target w =
     (case target w of
        (None, w') \<Rightarrow> w'
      | (Some e, w') \<Rightarrow>
          on_finished_emit False (exc_text env e)
            (on_status_emit (''Error: '' @ exc_text env e)
               (logger ERROR ''Background task exception'' w')))"

subsection \<open>What a run shows\<close>

text \<open>
  A signal of success is \<^verbatim>\<open>finished(True, ...)\<close>. One world follows another
  quietly when no process has been started and no success has been signalled in
  between.
\<close>

definition is_success :: "signal \<Rightarrow> bool" where
  "is_success s = (case s of Finished ok _ \<Rightarrow> ok | _ \<Rightarrow> False)"

definition quiet :: "world \<Rightarrow> world \<Rightarrow> bool" where
  "quiet w w' \<longleftrightarrow>
     spawned w' = spawned w
     \<and> filter is_success (signals w') = filter is_success (signals w)"

section \<open>Sample worlds\<close>

text \<open>
  Concrete hosts, disks and archives on which the properties below are
  evaluated. The host is Windows, nothing is refused, there is no network, no
  interpreter is announced by the environment, and a process that is started
  ends with status 0.
\<close>

definition sample_exc_text :: "exn \<Rightarrow> string" where
  "sample_exc_text e =
     (case e of
        OSError p \<Rightarrow> ''[Errno 13] Permission denied: '' @ p
      | BadZipFile p \<Rightarrow> ''File is not a zip file''
      | UnboundLocalError v \<Rightarrow>
          ''cannot access local variable '' @ [CHR 0x27] @ v @ [CHR 0x27]
            @ '' where it is not associated with a value''
      | LibraryError t \<Rightarrow> t)"

definition sample_env :: env where
  "sample_env =
     \<lparr> host = Windows,
       denied = (\<lambda>p. False),
       read_zip = (\<lambda>content. None),
       http_get = (\<lambda>url. Unreachable (LibraryError ''connection refused'')),
       percent = (\<lambda>a b. a * 100 div b),
       exc_text = sample_exc_text,
       py_repr = (\<lambda>xs. ''['' @ str_join '', '' xs @ '']''),
       environ = (\<lambda>name. None),
       which = (\<lambda>name. None),
       run_process = (\<lambda>cmd. Inr (0, [], [])) \<rparr>"

text \<open>
  An installed client: one library jar and the version jar under
  \<^verbatim>\<open>C:\penjs\<close>, and an interpreter at \<^verbatim>\<open>C:\jdk\bin\java.exe\<close>.
\<close>

definition installed_disk :: node where
  "installed_disk =
     Dir [(''C:'',
           Dir [(''penjs'',
                 Dir [(''swiftdlc'',
                       Dir [(''game'',
                             Dir [(''libraries'', Dir [(''asm-9.1.jar'', File ''asm'')]),
                                  (''versions'',
                                   Dir [(''1.16.5'', Dir [(''1.16.5.jar'', File ''client'')])])])])]),
                (''jdk'', Dir [(''bin'', Dir [(''java.exe'', File ''java'')])])])]"

definition sample_library_jar :: string where
  "sample_library_jar =
     os_path_join Windows GAME_DIR [''swiftdlc'', ''game'', ''libraries'', ''asm-9.1.jar'']"

definition installed_world :: world where
  "installed_world = \<lparr> disk = installed_disk, signals = [], logged = [], spawned = [] \<rparr>"

definition sample_java :: string where
  "sample_java = ''C:'' @ [CHR 0x5C] @ ''jdk'' @ [CHR 0x5C] @ ''bin'' @ [CHR 0x5C] @ ''java.exe''"

definition sample_launcher :: launcher where
  "sample_launcher = \<lparr> username = ''Player'', memory_gb = 4, java_path = Some sample_java \<rparr>"

definition launcher_without_java :: launcher where
  "launcher_without_java = \<lparr> username = ''Player'', memory_gb = 4, java_path = None \<rparr>"

text \<open>
  A disk that holds only the local archive, and a host on which that archive
  has four members: a directory, a file whose name the system refuses, a file
  whose data break after three bytes, and a library jar. The version jar is not
  in the archive.
\<close>

definition sample_members :: "member list" where
  "sample_members =
     [Member ''swiftdlc/'' (Readable []),
      Member ''locked.bin'' (Readable ''data''),
      Member ''broken.bin'' (Broken ''par'' (LibraryError ''Bad CRC-32'')),
      Member ''swiftdlc/game/libraries/asm-9.1.jar'' (Readable ''asm'')]"

definition archive_env :: env where
  "archive_env =
     sample_env
       \<lparr> denied := (\<lambda>p. endswith p ''locked.bin''),
         read_zip := (\<lambda>content. if content = ''PK'' then Some sample_members else None) \<rparr>"

definition archive_disk :: node where
  "archive_disk = Dir [(''C:'', Dir [(''penjs'', Dir [(''SwiftDlc.zip'', File ''PK'')])])]"

definition archive_world :: world where
  "archive_world = \<lparr> disk = archive_disk, signals = [], logged = [], spawned = [] \<rparr>"

text \<open>
  An empty disk, and a host whose server sends two chunks of the archive before
  the connection breaks.
\<close>

definition empty_world :: world where
  "empty_world = \<lparr> disk = Dir [], signals = [], logged = [], spawned = [] \<rparr>"

definition broken_env :: env where
  "broken_env =
     sample_env
       \<lparr> http_get := (\<lambda>url. Response None (Inr 100) [''PK'', ''abc'']
                                  (Some (LibraryError ''Connection broken''))) \<rparr>"

section \<open>Properties of the version comparison\<close>

lemmas version_eval =
  extract_version_tuple_from_name_def guava_match_here_def str_lower_def chr_lower_def
  is_digit_def py_int_def int_max_str_digits_def digit_val_def str_split_def

lemmas guava_eval =
  filter_guava_keep_latest_def is_guava_def guava_key_def basename_def splitdrive_def
  is_windows_def is_sep_def sorted_reverse_def version_eval

text \<open>
  C3 (as stated): the comparison pads the shorter tuple with zeros, so that 1.2.0
  compares equal to 1.2 and neither beats the other. The source compares the
  tuples as Python does, with no padding: the tuples of 1.2.0 and 1.2 differ, and
  the resolver prefers 1.2.0 even when 1.2 comes first in the list (on equal keys
  the stable sort would have kept the first).
\<close>

theorem version_zero_padding_counterexample:
  "extract_version_tuple_from_name ''guava-1.2.0.jar''
     \<noteq> extract_version_tuple_from_name ''guava-1.2.jar''
   \<and> filter_guava_keep_latest Posix [''guava-1.2.jar'', ''guava-1.2.0.jar'']
       = [''guava-1.2.0.jar'']"
  by (simp add: guava_eval)

text \<open>
  C3 (amended): the comparison is lexicographic on the parsed integer tuples, with
  no padding, a proper prefix being the smaller: 2.10 is greater than 2.9 (as
  numbers, not as text), and 1.2.0 is greater than 1.2, so that the later version
  wins in either order of the list.
\<close>

theorem version_comparison_lexicographic:
  "extract_version_tuple_from_name ''guava-2.9.jar''
     < extract_version_tuple_from_name ''guava-2.10.jar''
   \<and> extract_version_tuple_from_name ''guava-1.2.jar''
     < extract_version_tuple_from_name ''guava-1.2.0.jar''
   \<and> filter_guava_keep_latest Posix [''guava-2.9.jar'', ''guava-2.10.jar'']
       = [''guava-2.10.jar'']
   \<and> filter_guava_keep_latest Posix [''guava-2.10.jar'', ''guava-2.9.jar'']
       = [''guava-2.10.jar'']
   \<and> filter_guava_keep_latest Posix [''guava-1.2.0.jar'', ''guava-1.2.jar'']
       = [''guava-1.2.0.jar'']"
  by (simp add: guava_eval)

section \<open>Properties of the version parser\<close>

lemma digit_chr_digit:
  assumes "d < 10"
  shows "is_digit (digit_chr d)" and "digit_val (digit_chr d) = int d"
proof -
  from assms have "d = 0 \<or> d = 1 \<or> d = 2 \<or> d = 3 \<or> d = 4
      \<or> d = 5 \<or> d = 6 \<or> d = 7 \<or> d = 8 \<or> d = 9"
    by arith
  then have "is_digit (digit_chr d) \<and> digit_val (digit_chr d) = int d"
    by (elim disjE) (simp_all add: digit_chr_def is_digit_def digit_val_def)
  then show "is_digit (digit_chr d)" and "digit_val (digit_chr d) = int d"
    by simp_all
qed

lemma str_nat_digits: "str_nat n \<noteq> [] \<and> list_all is_digit (str_nat n)"
proof (induction n rule: str_nat.induct)
  case (1 n)
  show ?case
  proof (cases "n < 10")
    case True
    then show ?thesis
      by (subst (1 2) str_nat.simps) (simp add: digit_chr_digit)
  next
    case False
    then have "n mod 10 < 10" by simp
    with False 1 show ?thesis
      by (subst (1 2) str_nat.simps) (simp add: digit_chr_digit)
  qed
qed

lemma decimal_snoc:
  "foldl (\<lambda>n c. 10 * n + digit_val c) a (xs @ [c])
     = 10 * foldl (\<lambda>n c. 10 * n + digit_val c) a xs + digit_val c"
  by simp

lemma decimal_str_nat: "foldl (\<lambda>n c. 10 * n + digit_val c) 0 (str_nat n) = int n"
proof (induction n rule: str_nat.induct)
  case (1 n)
  show ?case
  proof (cases "n < 10")
    case True
    then show ?thesis
      by (subst str_nat.simps) (simp add: digit_chr_digit)
  next
    case False
    then have "n mod 10 < 10" by simp
    then have "digit_val (digit_chr (n mod 10)) = int (n mod 10)"
      by (rule digit_chr_digit)
    with False 1 show ?thesis
      by (subst str_nat.simps) (simp add: zmod_int zdiv_int)
  qed
qed

lemma py_int_str_nat:
  "length (str_nat n) \<le> int_max_str_digits \<Longrightarrow> py_int (str_nat n) = Some (int n)"
  by (simp add: py_int_def str_nat_digits decimal_str_nat)

lemma is_digit_not_dot: "is_digit c \<Longrightarrow> c \<noteq> CHR ''.''"
  by (auto simp: is_digit_def)

lemma dotted_digits_append:
  "list_all is_digit ds \<Longrightarrow> dotted_digits (ds @ r) = ds @ dotted_digits r"
  by (induction ds) auto

lemma split_where_nonempty: "split_where P s \<noteq> []"
  by (induction s) (auto split: list.splits)

lemma split_where_plain:
  "list_all (\<lambda>c. \<not> P c) ds \<Longrightarrow> split_where P ds = [ds]"
  by (induction ds) (auto split: list.splits)

lemma split_where_append:
  "list_all (\<lambda>c. \<not> P c) ds \<Longrightarrow> P s \<Longrightarrow> split_where P (ds @ s # t) = ds # split_where P t"
  by (induction ds) (auto split: list.splits simp: split_where_nonempty)

text \<open>The text of a version: its numbers in decimal, with dots between them.\<close>

lemma str_nat_no_dot: "list_all (\<lambda>c. \<not> c = CHR ''.'') (str_nat n)"
  using str_nat_digits [of n] by (auto simp: list_all_iff is_digit_not_dot)

lemma str_split_version:
  "vs \<noteq> [] \<Longrightarrow> str_split (CHR ''.'') (str_join ''.'' (map str_nat vs)) = map str_nat vs"
proof (induction vs rule: induct_list012)
  case 1
  then show ?case by simp
next
  case (2 x)
  then show ?case
    using str_nat_no_dot [of x] by (simp add: str_split_def split_where_plain)
next
  case (3 x y zs)
  then show ?case
    using split_where_append [OF str_nat_no_dot [of x], of "CHR ''.''"
            "str_join ''.'' (map str_nat (y # zs))"]
    by (simp add: str_split_def)
qed

lemma version_starts_with_digit:
  "vs \<noteq> [] \<Longrightarrow> \<exists>c cs. str_join ''.'' (map str_nat vs) @ r = c # cs \<and> is_digit c"
proof -
  assume "vs \<noteq> []"
  then obtain x xs where vs: "vs = x # xs" by (cases vs) auto
  obtain c cs where x: "str_nat x = c # cs" and c: "is_digit c"
    using str_nat_digits [of x] by (cases "str_nat x") auto
  show ?thesis
    using vs x c by (cases xs) auto
qed

lemma dotted_digits_version:
  assumes "vs \<noteq> []" and "dotted_digits r = []"
  shows "dotted_digits (str_join ''.'' (map str_nat vs) @ r) = str_join ''.'' (map str_nat vs)"
  using assms(1)
proof (induction vs rule: induct_list012)
  case 1
  then show ?case by simp
next
  case (2 x)
  then show ?case
    using str_nat_digits [of x] assms(2) by (simp add: dotted_digits_append)
next
  case (3 x y zs)
  obtain c cs where nxt: "str_join ''.'' (map str_nat (y # zs)) @ r = c # cs" and c: "is_digit c"
    using version_starts_with_digit [of "y # zs" r] by auto
  have "dotted_digits (CHR ''.'' # str_join ''.'' (map str_nat (y # zs)) @ r)
          = CHR ''.'' # dotted_digits (str_join ''.'' (map str_nat (y # zs)) @ r)"
    using nxt c by (simp add: is_digit_def)
  with 3 show ?case
    using str_nat_digits [of x] by (simp add: dotted_digits_append)
qed

lemma version_tuple_of_name:
  assumes "vs \<noteq> []"
      and "\<forall>v \<in> set vs. length (str_nat v) \<le> int_max_str_digits"
      and "dotted_digits r = []"
  shows "extract_version_tuple_from_name (''guava-'' @ str_join ''.'' (map str_nat vs) @ r)
           = map int vs"
proof -
  let ?ver = "str_join ''.'' (map str_nat vs)"
  obtain c cs where first: "?ver @ r = c # cs" and c: "is_digit c"
    using version_starts_with_digit [OF assms(1), of r] by auto
  have "guava_match_here (''guava-'' @ ?ver @ r) = Some (dotted_digits (?ver @ r))"
    using first c by (simp add: guava_match_here_def str_lower_def chr_lower_def)
  then have "re_search_guava (''guava-'' @ ?ver @ r) = Some ?ver"
    using dotted_digits_version [OF assms(1,3)] by simp
  moreover have "map (\<lambda>p. case py_int p of Some n \<Rightarrow> n | None \<Rightarrow> 0) (map str_nat vs) = map int vs"
    using assms(2) by (simp add: py_int_str_nat)
  ultimately show ?thesis
    using str_split_version [OF assms(1)] by (simp add: extract_version_tuple_from_name_def)
qed

section \<open>Properties of the keep-latest filter\<close>

lemma sorted_reverse_Nil_iff: "sorted_reverse f xs = [] \<longleftrightarrow> xs = []"
  unfolding sorted_reverse_def by (metis length_sort length_rev length_0_conv)

lemma sorted_reverse_head_max:
  assumes "sorted_reverse f xs = s # rest"
  shows "s \<in> set xs \<and> (\<forall>x \<in> set xs. f x \<le> f s)"
proof -
  from assms have eq: "sort_key f (rev xs) = rev rest @ [s]"
    unfolding sorted_reverse_def by (metis rev_rev_ident rev.simps(2))
  have "set (sort_key f (rev xs)) = set xs" by simp
  with eq have sets: "set xs = insert s (set rest)" by auto
  have "sorted (map f (rev rest @ [s]))"
    using sorted_sort_key [of f "rev xs"] eq by simp
  then have "\<forall>x \<in> set rest. f x \<le> f s"
    by (simp add: sorted_append)
  with sets show ?thesis by auto
qed

text \<open>Elements of equal key keep their order: the sort is stable.\<close>

lemma sorted_reverse_stable:
  "filter (\<lambda>y. f y = k) (sorted_reverse f xs) = filter (\<lambda>y. f y = k) xs"
  unfolding sorted_reverse_def
  by (simp add: rev_filter [symmetric] sort_key_stable)

lemma find_eq_hd_filter:
  "filter P xs = y # ys \<Longrightarrow> List.find P xs = Some y"
  by (induction xs) (auto split: if_splits)

lemma sorted_reverse_head_first:
  assumes "sorted_reverse f xs = s # rest"
  shows "List.find (\<lambda>y. f y = f s) xs = Some s"
proof -
  have "filter (\<lambda>y. f y = f s) (s # rest) = filter (\<lambda>y. f y = f s) xs"
    using sorted_reverse_stable [of f "f s" xs] assms by simp
  then have "filter (\<lambda>y. f y = f s) xs = s # filter (\<lambda>y. f y = f s) rest" by simp
  then show ?thesis by (rule find_eq_hd_filter)
qed

lemma find_filter_conj:
  "List.find Q (filter P xs) = List.find (\<lambda>x. P x \<and> Q x) xs"
  by (induction xs) auto

lemma keep_latest_winner:
  assumes "2 \<le> length (filter (is_guava plat) jars)"
  shows "\<exists>w. filter_guava_keep_latest plat jars
               = filter (\<lambda>j. \<not> is_guava plat j) jars @ [w]
           \<and> w \<in> set jars \<and> is_guava plat w
           \<and> (\<forall>g \<in> set jars. is_guava plat g \<longrightarrow> guava_key plat g \<le> guava_key plat w)
           \<and> List.find (\<lambda>g. is_guava plat g \<and> guava_key plat g = guava_key plat w) jars
               = Some w"
proof -
  define guavas where "guavas = filter (is_guava plat) jars"
  from assms obtain g gs where g: "guavas = g # gs"
    unfolding guavas_def by (cases "filter (is_guava plat) jars") auto
  then have "sorted_reverse (guava_key plat) guavas \<noteq> []"
    by (simp add: sorted_reverse_Nil_iff)
  then obtain s rest where s: "sorted_reverse (guava_key plat) guavas = s # rest"
    by (cases "sorted_reverse (guava_key plat) guavas") auto
  have res: "filter_guava_keep_latest plat jars = filter (\<lambda>j. \<not> is_guava plat j) jars @ [s]"
    using g s unfolding filter_guava_keep_latest_def guavas_def by (simp add: Let_def)
  from sorted_reverse_head_max [OF s]
  have mem: "s \<in> set guavas"
    and mx: "\<forall>x \<in> set guavas. guava_key plat x \<le> guava_key plat s"
    by auto
  from mem have "s \<in> set jars" "is_guava plat s" unfolding guavas_def by auto
  moreover from mx
  have "\<forall>g \<in> set jars. is_guava plat g \<longrightarrow> guava_key plat g \<le> guava_key plat s"
    unfolding guavas_def by auto
  moreover
  have "List.find (\<lambda>g. is_guava plat g \<and> guava_key plat g = guava_key plat s) jars = Some s"
    using sorted_reverse_head_first [OF s] unfolding guavas_def
    by (simp add: find_filter_conj)
  ultimately show ?thesis using res by blast
qed


text \<open>
  C4 (as stated): the artifacts that match the pattern, a name followed by a
  dotted version, are removed and the others are left untouched. The source
  selects with a wider test, the presence of \<^verbatim>\<open>guava-\<close> in the base name. In the
  list below two artifacts carry a version; the third does not (the version
  pattern of the source finds nothing in it), and yet it is removed.
\<close>

theorem guava_without_version_removed_counterexample:
  "re_search_guava ''guava-19.0.jar'' = Some ''19.0''
   \<and> re_search_guava ''guava-30.1.1.jar'' = Some ''30.1.1''
   \<and> re_search_guava ''guava-testlib.jar'' = None
   \<and> filter_guava_keep_latest Posix
        [''guava-19.0.jar'', ''guava-30.1.1.jar'', ''guava-testlib.jar'']
       = [''guava-30.1.1.jar'']"
  by (simp add: guava_eval)

text \<open>
  C4 (amended): when two or more artifacts of the list pass the source's test
  for the duplicate-prone library (the base name, in lower case, contains
  \<^verbatim>\<open>guava-\<close>, with or without a version after it), the result is the artifacts
  that do not pass it, in their order, followed by exactly one that does: one
  whose parsed version tuple is the greatest in the lexicographic order, and
  among those of that tuple the first of the list. The parsed tuple of a base
  name \<^verbatim>\<open>guava-\<close>, numbers with dots between them, and a rest that does not go
  on with the version, is the tuple of those numbers; where the version pattern
  finds nothing it is \<open>(0,)\<close>.
\<close>

theorem filter_guava_keep_latest_appends_winner:
  assumes "2 \<le> length (filter (is_guava plat) jars)"
  shows "(\<exists>w. filter_guava_keep_latest plat jars
               = filter (\<lambda>j. \<not> is_guava plat j) jars @ [w]
           \<and> w \<in> set jars \<and> is_guava plat w
           \<and> (\<forall>g \<in> set jars. is_guava plat g \<longrightarrow> guava_key plat g \<le> guava_key plat w)
           \<and> List.find (\<lambda>g. is_guava plat g \<and> guava_key plat g = guava_key plat w) jars
               = Some w)
       \<and> (\<forall>p vs r.
             basename plat p = ''guava-'' @ str_join ''.'' (map str_nat vs) @ r
           \<and> vs \<noteq> []
           \<and> (\<forall>v \<in> set vs. length (str_nat v) \<le> int_max_str_digits)
           \<and> dotted_digits r = [] \<longrightarrow>
             guava_key plat p = map int vs)
       \<and> (\<forall>p. re_search_guava (basename plat p) = None \<longrightarrow> guava_key plat p = [0])"
proof (intro conjI allI impI)
  show "\<exists>w. filter_guava_keep_latest plat jars
               = filter (\<lambda>j. \<not> is_guava plat j) jars @ [w]
           \<and> w \<in> set jars \<and> is_guava plat w
           \<and> (\<forall>g \<in> set jars. is_guava plat g \<longrightarrow> guava_key plat g \<le> guava_key plat w)
           \<and> List.find (\<lambda>g. is_guava plat g \<and> guava_key plat g = guava_key plat w) jars
               = Some w"
    using assms by (rule keep_latest_winner)
next
  fix p vs r
  assume "basename plat p = ''guava-'' @ str_join ''.'' (map str_nat vs) @ r
           \<and> vs \<noteq> []
           \<and> (\<forall>v \<in> set vs. length (str_nat v) \<le> int_max_str_digits)
           \<and> dotted_digits r = []"
  then show "guava_key plat p = map int vs"
    using version_tuple_of_name [of vs r] by (simp add: guava_key_def)
next
  fix p
  assume "re_search_guava (basename plat p) = None"
  then show "guava_key plat p = [0]"
    by (simp add: guava_key_def extract_version_tuple_from_name_def)
qed

theorem filter_guava_keep_latest_appends_winner_witness:
  "2 \<le> length (filter (is_guava Posix)
                 [''a.jar'', ''guava-19.0.jar'', ''guava-testlib.jar'', ''b.jar'',
                  ''guava-30.1.1.jar''])
   \<and> filter_guava_keep_latest Posix
        [''a.jar'', ''guava-19.0.jar'', ''guava-testlib.jar'', ''b.jar'', ''guava-30.1.1.jar'']
       = [''a.jar'', ''b.jar'', ''guava-30.1.1.jar'']
   \<and> guava_key Posix ''guava-19.0.jar'' = [19, 0]
   \<and> guava_key Posix ''guava-30.1.1.jar'' = [30, 1, 1]
   \<and> guava_key Posix ''guava-testlib.jar'' = [0]"
proof -
  let ?J = "[''a.jar'', ''guava-19.0.jar'', ''guava-testlib.jar'', ''b.jar'',
             ''guava-30.1.1.jar'']"
  have h: "2 \<le> length (filter (is_guava Posix) ?J)"
    by (simp add: is_guava_def basename_def splitdrive_def is_windows_def is_sep_def
        str_lower_def chr_lower_def)
  note winner = filter_guava_keep_latest_appends_winner [OF h]
  have base: "basename Posix ''guava-19.0.jar''
                = ''guava-'' @ str_join ''.'' (map str_nat [19, 0]) @ ''.jar''"
    "basename Posix ''guava-30.1.1.jar''
                = ''guava-'' @ str_join ''.'' (map str_nat [30, 1, 1]) @ ''.jar''"
    by (simp_all add: basename_def splitdrive_def is_windows_def is_sep_def
        str_nat.simps digit_chr_def)
  have short: "\<forall>v \<in> set [19, 0::nat]. length (str_nat v) \<le> int_max_str_digits"
    "\<forall>v \<in> set [30, 1, 1::nat]. length (str_nat v) \<le> int_max_str_digits"
    by (simp_all add: str_nat.simps int_max_str_digits_def)
  have stop: "dotted_digits ''.jar'' = []"
    by (simp add: is_digit_def)
  have none: "re_search_guava (basename Posix ''guava-testlib.jar'') = None"
    by (simp add: basename_def splitdrive_def is_windows_def is_sep_def guava_match_here_def
        str_lower_def chr_lower_def is_digit_def)
  note parse = winner [THEN conjunct2, THEN conjunct1, rule_format]
  note unparsed = winner [THEN conjunct2, THEN conjunct2, rule_format]
  have k19: "guava_key Posix ''guava-19.0.jar'' = [19, 0]"
    using parse [of "''guava-19.0.jar''" "[19, 0]" "''.jar''"] base(1) short(1) stop
    by simp
  have k30: "guava_key Posix ''guava-30.1.1.jar'' = [30, 1, 1]"
    using parse [of "''guava-30.1.1.jar''" "[30, 1, 1]" "''.jar''"] base(2) short(2) stop
    by simp
  have kt: "guava_key Posix ''guava-testlib.jar'' = [0]"
    using none by (rule unparsed)
  from winner [THEN conjunct1] obtain w where
    res: "filter_guava_keep_latest Posix ?J = filter (\<lambda>j. \<not> is_guava Posix j) ?J @ [w]"
    and mem: "w \<in> set ?J" and gw: "is_guava Posix w"
    and mx: "\<forall>g \<in> set ?J. is_guava Posix g \<longrightarrow> guava_key Posix g \<le> guava_key Posix w"
    by blast
  have g30: "is_guava Posix ''guava-30.1.1.jar''"
    and na: "\<not> is_guava Posix ''a.jar''" and nb: "\<not> is_guava Posix ''b.jar''"
    and g19: "is_guava Posix ''guava-19.0.jar''" and gt: "is_guava Posix ''guava-testlib.jar''"
    by (simp_all add: is_guava_def basename_def splitdrive_def is_windows_def is_sep_def
        str_lower_def chr_lower_def)
  from mx g30 have above: "[30, 1, 1] \<le> guava_key Posix w"
    using k30 by simp
  from mem gw na nb have "w = ''guava-19.0.jar'' \<or> w = ''guava-testlib.jar''
      \<or> w = ''guava-30.1.1.jar''"
    by auto
  with above k19 kt have w: "w = ''guava-30.1.1.jar''"
    by auto
  have "filter (\<lambda>j. \<not> is_guava Posix j) ?J = [''a.jar'', ''b.jar'']"
    using na nb g19 gt g30 by simp
  with res w have "filter_guava_keep_latest Posix ?J = [''a.jar'', ''b.jar'', ''guava-30.1.1.jar'']"
    by simp
  with h k19 k30 kt show ?thesis
    by blast
qed

section \<open>Properties of the required-file verifier\<close>

lemmas path_eval =
  os_path_join_def path_join_def splitdrive_def is_windows_def is_sep_def os_sep_def
  str_lower_def chr_lower_def

lemmas config_eval =
  GAME_DIR_def CLIENT_DIR_def GAME_VERSION_def REQUIRED_PATHS_def version_jar_def
  libraries_dir_def

lemma required_paths_first:
  "check_required_path plat d (hd (REQUIRED_PATHS plat)) =
     (if \<not> os_path_exists plat d (version_jar plat)
      then [(version_jar plat, ''Missing path: '' @ version_jar plat)] else [])"
  by (cases plat) (simp_all add: check_required_path_def endswith_def config_eval path_eval Let_def)

lemma required_paths_second:
  "check_required_path plat d (hd (tl (REQUIRED_PATHS plat))) =
     (if \<not> os_path_isdir plat d (libraries_dir plat)
      then [(libraries_dir plat, ''Missing directory: '' @ libraries_dir plat)]
      else if \<not> has_jar (os_walk plat d (libraries_dir plat))
      then [(libraries_dir plat @ '' (no jars)'',
             ''No .jar files found under: '' @ libraries_dir plat)]
      else [])"
  by (cases plat) (simp_all add: check_required_path_def endswith_def config_eval path_eval Let_def)

lemma missing_items_unfold:
  "missing_items plat d =
     check_required_path plat d (hd (REQUIRED_PATHS plat))
     @ check_required_path plat d (hd (tl (REQUIRED_PATHS plat)))
     @ check_version_jar plat d"
  by (simp add: missing_items_def REQUIRED_PATHS_def)

lemma libraries_dir_not_version_jar:
  "libraries_dir plat \<noteq> version_jar plat"
  "libraries_dir plat @ '' (no jars)'' \<noteq> version_jar plat"
  by (cases plat; simp add: config_eval path_eval)+

lemma fst_check_required_files:
  "fst (check_required_files env w) = map fst (missing_items (host env) (disk w))"
  by (simp add: check_required_files_def Let_def)

text \<open>
  C10: when the version jar is absent from the disk, the list that
  \<^verbatim>\<open>_check_required_files\<close> returns holds its path twice, once for the entry of
  \<^verbatim>\<open>REQUIRED_PATHS\<close> and once for the final check, and is one longer than the
  number of distinct items in it.
\<close>

theorem missing_version_jar_reported_twice:
  assumes "\<not> os_path_exists (host env) (disk w) (version_jar (host env))"
  shows "count_list (fst (check_required_files env w)) (version_jar (host env)) = 2
       \<and> length (fst (check_required_files env w))
           = card (set (fst (check_required_files env w))) + 1"
proof -
  let ?vj = "version_jar (host env)"
  let ?lib = "libraries_dir (host env)"
  obtain mid where mid: "fst (check_required_files env w) = ?vj # mid @ [?vj]"
    and cases: "mid = [] \<or> mid = [?lib] \<or> mid = [?lib @ '' (no jars)'']"
    using assms
    by (simp add: fst_check_required_files missing_items_unfold required_paths_first
        required_paths_second check_version_jar_def)
  from cases have nin: "?vj \<notin> set mid" and dist: "distinct mid"
    using libraries_dir_not_version_jar [of "host env"] by auto
  from nin have "count_list (?vj # mid @ [?vj]) ?vj = 2"
    by (simp add: count_list_0_iff)
  moreover have "set (?vj # mid @ [?vj]) = insert ?vj (set mid)" by auto
  then have "card (set (?vj # mid @ [?vj])) = Suc (length mid)"
    using nin dist by (simp add: distinct_card)
  ultimately show ?thesis using mid by simp
qed


theorem missing_version_jar_reported_twice_witness:
  "\<not> os_path_exists (host sample_env) (disk empty_world) (version_jar (host sample_env))
   \<and> count_list (fst (check_required_files sample_env empty_world))
        (version_jar (host sample_env)) = 2
   \<and> length (fst (check_required_files sample_env empty_world))
       = card (set (fst (check_required_files sample_env empty_world))) + 1"
proof -
  have h: "\<not> os_path_exists (host sample_env) (disk empty_world) (version_jar (host sample_env))"
    by code_simp
  from missing_version_jar_reported_twice [OF h] h show ?thesis
    by blast
qed

section \<open>Properties of the artifact collector\<close>

lemmas components_eval = path_components_def long_path_prefix_def

lemma fs_lookup_append:
  "fs_lookup n (xs @ ys) = (case fs_lookup n xs of None \<Rightarrow> None | Some m \<Rightarrow> fs_lookup m ys)"
  by (induction xs arbitrary: n) (auto split: node.splits option.splits)

lemma walk_node_entry:
  "map_of es c = Some m \<Longrightarrow>
     set (walk_node plat (path_join plat dir c) m) \<subseteq> set (walk_entries plat dir es)"
proof (induction es)
  case Nil
  then show ?case by simp
next
  case (Cons e es)
  obtain k v where e: "e = (k, v)" by (cases e)
  show ?case
  proof (cases "k = c")
    case True
    with Cons.prems e have "v = m" by simp
    with True e show ?thesis by (cases m) auto
  next
    case False
    with Cons e show ?thesis by auto
  qed
qed

lemma walk_node_lookup:
  "fs_lookup n cs = Some m \<Longrightarrow>
     set (walk_node plat (foldl (path_join plat) dir cs) m) \<subseteq> set (walk_node plat dir n)"
proof (induction cs arbitrary: n dir)
  case Nil
  then show ?case by simp
next
  case (Cons c cs)
  from Cons.prems obtain es n' where n: "n = Dir es" and c: "map_of es c = Some n'"
    and rest: "fs_lookup n' cs = Some m"
    by (auto split: node.splits option.splits)
  have "set (walk_node plat (foldl (path_join plat) (path_join plat dir c) cs) m)
          \<subseteq> set (walk_node plat (path_join plat dir c) n')"
    using Cons.IH [OF rest] .
  also have "\<dots> \<subseteq> set (walk_entries plat dir es)"
    using walk_node_entry [OF c] .
  finally show ?case using n by auto
qed

lemma set_jars_of_walk_mono:
  "set ws \<subseteq> set ws' \<Longrightarrow> set (jars_of_walk plat ws) \<subseteq> set (jars_of_walk plat ws')"
  by (auto simp: jars_of_walk_def)

lemma libraries_components:
  "path_components plat (libraries_dir plat)
     = path_components plat CLIENT_DIR @ [''swiftdlc'', ''game'', ''libraries'']"
  by (cases plat) (simp_all add: config_eval path_eval components_eval)

lemma version_jar_components:
  "path_components plat (version_jar plat)
     = path_components plat CLIENT_DIR @ [''swiftdlc'', ''game'', ''versions'', ''1.16.5'']
         @ [''1.16.5.jar'']"
  by (cases plat) (simp_all add: config_eval path_eval components_eval)

lemma libraries_dir_joined:
  "libraries_dir plat = foldl (path_join plat) CLIENT_DIR [''swiftdlc'', ''game'', ''libraries'']"
  by (simp add: libraries_dir_def os_path_join_def GAME_DIR_def CLIENT_DIR_def)

lemma version_jar_joined:
  "version_jar plat =
     path_join plat (foldl (path_join plat) CLIENT_DIR [''swiftdlc'', ''game'', ''versions'', ''1.16.5''])
       ''1.16.5.jar''"
  by (simp add: version_jar_def os_path_join_def GAME_DIR_def CLIENT_DIR_def GAME_VERSION_def)

lemma client_dir_nonempty: "CLIENT_DIR \<noteq> []" "libraries_dir plat \<noteq> []" "version_jar plat \<noteq> []"
  by (cases plat; simp add: config_eval path_eval)+

lemma lookup_below_is_dir:
  "fs_lookup n (c # cs) = Some m \<Longrightarrow> \<exists>es. n = Dir es"
  by (cases n) auto

lemma library_jars_in_client_jars:
  "set (library_jars plat d) \<subseteq> set (client_jars plat d)"
proof (cases "os_path_isdir plat d (libraries_dir plat)")
  case False
  then show ?thesis by (simp add: library_jars_def)
next
  case True
  let ?cs = "[''swiftdlc'', ''game'', ''libraries'']"
  from True obtain m where
    lib: "fs_lookup d (path_components plat CLIENT_DIR @ ?cs) = Some m"
    by (auto simp: os_path_isdir_def libraries_components split: option.splits)
  then obtain n0 where n0: "fs_lookup d (path_components plat CLIENT_DIR) = Some n0"
    and sub: "fs_lookup n0 ?cs = Some m"
    by (auto simp only: fs_lookup_append split: option.splits)
  from lookup_below_is_dir [OF sub] obtain es0 where es0: "n0 = Dir es0" ..
  have isdir: "os_path_isdir plat d CLIENT_DIR"
    using n0 es0 client_dir_nonempty by (simp add: os_path_isdir_def)
  have "set (walk_node plat (libraries_dir plat) m) \<subseteq> set (walk_node plat CLIENT_DIR n0)"
    unfolding libraries_dir_joined by (rule walk_node_lookup [OF sub])
  moreover have "os_walk plat d (libraries_dir plat) = walk_node plat (libraries_dir plat) m"
    using lib client_dir_nonempty by (simp add: os_walk_def libraries_components)
  moreover have "os_walk plat d CLIENT_DIR = walk_node plat CLIENT_DIR n0"
    using n0 client_dir_nonempty by (simp add: os_walk_def)
  ultimately have "set (os_walk plat d (libraries_dir plat)) \<subseteq> set (os_walk plat d CLIENT_DIR)"
    by simp
  then show ?thesis
    using True isdir by (simp add: library_jars_def client_jars_def set_jars_of_walk_mono)
qed

lemma file_names_map_of:
  "map_of es k = Some (File c) \<Longrightarrow> k \<in> set (file_names es)"
  by (induction es rule: file_names.induct) (auto split: if_splits)

lemma lookup_file_entry:
  "fs_lookup p [k] = Some (File c) \<Longrightarrow> \<exists>es. p = Dir es \<and> map_of es k = Some (File c)"
  by (cases p) (auto split: option.splits)

lemma version_jar_in_client_jars:
  assumes "os_path_isfile plat d (version_jar plat)"
  shows "version_jar plat \<in> set (client_jars plat d)"
proof -
  let ?cs = "[''swiftdlc'', ''game'', ''versions'', ''1.16.5'']"
  from assms obtain c where
    "fs_lookup d (path_components plat CLIENT_DIR @ ?cs @ [''1.16.5.jar'']) = Some (File c)"
    by (auto simp: os_path_isfile_def version_jar_components split: option.splits node.splits)
  then obtain n0 p where n0: "fs_lookup d (path_components plat CLIENT_DIR) = Some n0"
    and p: "fs_lookup n0 ?cs = Some p"
    and f: "fs_lookup p [''1.16.5.jar''] = Some (File c)"
    by (auto simp only: fs_lookup_append split: option.splits)
  from lookup_file_entry [OF f] obtain es where es: "p = Dir es"
    and m: "map_of es ''1.16.5.jar'' = Some (File c)"
    by blast
  from lookup_below_is_dir [OF p] obtain es0 where es0: "n0 = Dir es0" ..
  have isdir: "os_path_isdir plat d CLIENT_DIR"
    using n0 es0 client_dir_nonempty by (simp add: os_path_isdir_def)
  let ?pdir = "foldl (path_join plat) CLIENT_DIR ?cs"
  have "(?pdir, file_names es) \<in> set (walk_node plat ?pdir p)"
    unfolding es by simp
  then have "(?pdir, file_names es) \<in> set (walk_node plat CLIENT_DIR n0)"
    using walk_node_lookup [OF p, of plat CLIENT_DIR] by blast
  moreover have "os_walk plat d CLIENT_DIR = walk_node plat CLIENT_DIR n0"
    using n0 client_dir_nonempty by (simp add: os_walk_def)
  ultimately have w: "(?pdir, file_names es) \<in> set (os_walk plat d CLIENT_DIR)"
    by simp
  have "''1.16.5.jar'' \<in> set (file_names es)"
    using m by (rule file_names_map_of)
  moreover have "endswith ''1.16.5.jar'' ''.jar''"
    by (simp add: endswith_def)
  ultimately have "path_join plat ?pdir ''1.16.5.jar''
      \<in> set (jars_of_walk plat (os_walk plat d CLIENT_DIR))"
    using w unfolding jars_of_walk_def by force
  then show ?thesis
    using isdir unfolding client_jars_def version_jar_joined by simp
qed

lemma isfile_exists: "os_path_isfile plat d p \<Longrightarrow> os_path_exists plat d p"
  by (auto simp: os_path_isfile_def os_path_exists_def split: option.splits)

lemma count_list_pos: "x \<in> set xs \<Longrightarrow> 1 \<le> count_list xs x"
  by (induction xs) auto

lemma count_list_filter: "P x \<Longrightarrow> count_list (filter P xs) x = count_list xs x"
  by (induction xs) auto

lemma count_filter_guava_keep_latest:
  assumes "\<not> is_guava plat j"
  shows "count_list (filter_guava_keep_latest plat jars) j = count_list jars j"
proof -
  have a: "count_list (filter (\<lambda>j. \<not> is_guava plat j) jars) j = count_list jars j"
    using assms by (simp add: count_list_filter)
  have b: "filter (is_guava plat) jars = g # gs \<Longrightarrow>
        (case sorted_reverse (guava_key plat) (g # gs) of [] \<Rightarrow> g | s # _ \<Rightarrow> s) \<noteq> j" for g gs
  proof -
    assume eq: "filter (is_guava plat) jars = g # gs"
    show ?thesis
    proof (cases "sorted_reverse (guava_key plat) (g # gs)")
      case Nil
      then show ?thesis by (simp add: sorted_reverse_Nil_iff)
    next
      case (Cons s rest)
      have "set (sorted_reverse (guava_key plat) (g # gs)) = set (g # gs)"
        by (simp add: sorted_reverse_def)
      with Cons have "s \<in> set (filter (is_guava plat) jars)" using eq by auto
      then have "is_guava plat s" by simp
      with assms Cons show ?thesis by auto
    qed
  qed
  show ?thesis
    using a b
    by (auto simp: filter_guava_keep_latest_def Let_def count_list_append split: list.splits)
qed

lemma version_jar_not_guava: "\<not> is_guava plat (version_jar plat)"
  by (cases plat) (simp_all add: is_guava_def basename_def config_eval path_eval)

text \<open>
  C9: \<^verbatim>\<open>CLIENT_DIR\<close> and \<^verbatim>\<open>GAME_DIR\<close> are the same directory, so the walk of
  the bundle root passes again through the libraries and the version directory:
  every jar of the first pass, and the version jar when it is a file, occurs at
  least twice in the collected list, and still does after the keep-latest
  filter unless the filter takes it for a guava.
\<close>

theorem jars_collected_twice:
  "(\<forall>j \<in> set (library_jars plat d).
       2 \<le> count_list (collect_jars plat d) j
     \<and> (\<not> is_guava plat j \<longrightarrow>
          2 \<le> count_list (filter_guava_keep_latest plat (collect_jars plat d)) j))
   \<and> (os_path_isfile plat d (version_jar plat) \<longrightarrow>
         2 \<le> count_list (collect_jars plat d) (version_jar plat)
       \<and> 2 \<le> count_list (filter_guava_keep_latest plat (collect_jars plat d)) (version_jar plat))"
proof (intro conjI ballI impI)
  fix j assume j: "j \<in> set (library_jars plat d)"
  then have "j \<in> set (client_jars plat d)"
    using library_jars_in_client_jars by blast
  with j show two: "2 \<le> count_list (collect_jars plat d) j"
    using count_list_pos [of j "library_jars plat d"] count_list_pos [of j "client_jars plat d"]
    by (simp add: collect_jars_def count_list_append)
  assume "\<not> is_guava plat j"
  then show "2 \<le> count_list (filter_guava_keep_latest plat (collect_jars plat d)) j"
    using two by (simp add: count_filter_guava_keep_latest)
next
  assume f: "os_path_isfile plat d (version_jar plat)"
  then have "version_jar plat \<in> set (version_jars plat d)"
    by (simp add: version_jars_def isfile_exists)
  moreover have "version_jar plat \<in> set (client_jars plat d)"
    using f by (rule version_jar_in_client_jars)
  ultimately show two: "2 \<le> count_list (collect_jars plat d) (version_jar plat)"
    using count_list_pos [of "version_jar plat" "version_jars plat d"]
      count_list_pos [of "version_jar plat" "client_jars plat d"]
    by (simp add: collect_jars_def count_list_append)
  then show "2 \<le> count_list (filter_guava_keep_latest plat (collect_jars plat d)) (version_jar plat)"
    by (simp add: count_filter_guava_keep_latest version_jar_not_guava)
qed


theorem jars_collected_twice_witness:
  "sample_library_jar \<in> set (library_jars Windows installed_disk)
   \<and> 2 \<le> count_list (collect_jars Windows installed_disk) sample_library_jar
   \<and> \<not> is_guava Windows sample_library_jar
   \<and> 2 \<le> count_list (filter_guava_keep_latest Windows (collect_jars Windows installed_disk))
           sample_library_jar
   \<and> os_path_isfile Windows installed_disk (version_jar Windows)
   \<and> 2 \<le> count_list (collect_jars Windows installed_disk) (version_jar Windows)
   \<and> 2 \<le> count_list (filter_guava_keep_latest Windows (collect_jars Windows installed_disk))
           (version_jar Windows)"
proof -
  have h1: "sample_library_jar \<in> set (library_jars Windows installed_disk)"
    by code_simp
  have h2: "\<not> is_guava Windows sample_library_jar"
    by code_simp
  have h3: "os_path_isfile Windows installed_disk (version_jar Windows)"
    by code_simp
  from jars_collected_twice [of Windows installed_disk] h1 h2 h3 show ?thesis
    by blast
qed

section \<open>Properties of the file tree\<close>

lemma map_of_set_entry_same: "map_of (set_entry k v es) k = Some v"
  by (induction es) auto

lemma map_of_set_entry_other: "k' \<noteq> k \<Longrightarrow> map_of (set_entry k v es) k' = map_of es k'"
  by (induction es) auto

text \<open>What has been written is what is read.\<close>

lemma fs_lookup_write_at:
  "write_at p content d = Some d' \<Longrightarrow> fs_lookup d' p = Some (File content)"
proof (induction p arbitrary: d d')
  case Nil
  then show ?case by (cases d) auto
next
  case (Cons c cs)
  then show ?case
    by (cases d) (auto simp: map_of_set_entry_same split: option.splits if_splits)
qed

lemma read_file_open_write:
  assumes "open_write env d p content = Inr d'"
  shows "read_file (host env) d' p = Inr content"
proof -
  from assms have p: "p \<noteq> []"
    and w: "write_at (path_components (host env) p) content d = Some d'"
    by (auto simp: open_write_def split: if_splits option.splits)
  from fs_lookup_write_at [OF w] p show ?thesis
    by (simp add: read_file_def)
qed

section \<open>Properties of the archive extractor\<close>

lemma extract_members_append:
  "extract_members env target_dir pc sc tot idx (xs @ ys) n w =
     (case extract_members env target_dir pc sc tot idx xs n w of
        (n', w') \<Rightarrow> extract_members env target_dir pc sc tot (idx + length xs) ys n' w')"
  by (induction xs arbitrary: idx n w) (auto split: prod.splits)

lemma write_entry_both_fail:
  assumes "write_member env m (add_long_path_prefix (host env) target_path) (disk w) = (Some e, d1)"
      and "write_member env m target_path d1 = (Some e2, d2)"
  shows "write_entry env m target_path w =
           logger ERROR (''Failed to extract '' @ filename m @ '': '' @ exc_text env e2)
             (logger DEBUG (''Primary extract failed for '' @ filename m @ '': '' @ exc_text env e)
                (w\<lparr>disk := d1\<rparr>)
              \<lparr>disk := d2\<rparr>)"
  using assms by (simp add: write_entry_def logger_def Let_def)

text \<open>What has been logged stays logged while the members are extracted.\<close>

lemma logged_safe_makedirs:
  "x \<in> set (logged w) \<Longrightarrow> x \<in> set (logged (safe_makedirs env p w))"
  by (auto simp: safe_makedirs_def logger_def Let_def split: sum.splits)

lemma logged_prepare_parent:
  "x \<in> set (logged w) \<Longrightarrow> x \<in> set (logged (prepare_parent env t m w))"
  by (simp add: prepare_parent_def Let_def logged_safe_makedirs)

lemma logged_write_entry:
  "x \<in> set (logged w) \<Longrightarrow> x \<in> set (logged (write_entry env m p w))"
  by (auto simp: write_entry_def logger_def Let_def split: prod.splits option.splits)

lemma logged_extract_member:
  assumes "\<forall>v u. logged (call_back pc v u) = logged u"
      and "\<forall>v u. logged (call_back sc v u) = logged u"
      and "x \<in> set (logged w)"
  shows "x \<in> set (logged (snd (extract_member env t pc sc tot idx m n w)))"
  using assms
  by (simp add: extract_member_def Let_def logged_prepare_parent logged_write_entry)

lemma logged_extract_members:
  assumes "\<forall>v u. logged (call_back pc v u) = logged u"
      and "\<forall>v u. logged (call_back sc v u) = logged u"
      and "x \<in> set (logged w)"
  shows "x \<in> set (logged (snd (extract_members env t pc sc tot idx ms n w)))"
  using assms(3)
proof (induction ms arbitrary: idx n w)
  case Nil
  then show ?case by simp
next
  case (Cons m ms)
  obtain n1 w1 where step: "extract_member env t pc sc tot idx m n w = (n1, w1)"
    by (cases "extract_member env t pc sc tot idx m n w")
  have "x \<in> set (logged w1)"
    using logged_extract_member [OF assms(1,2) Cons.prems, of env t tot idx m n] step by simp
  from Cons.IH [OF this, of "idx + 1" n1] step show ?case by simp
qed

lemma logged_write_marker:
  "x \<in> set (logged w) \<Longrightarrow> x \<in> set (logged (write_marker env t w))"
  by (auto simp: write_marker_def Let_def split: sum.splits)

text \<open>
  C6: a member that is not a directory and whose write fails twice, with the
  long-path prefix and without it, is skipped. Its step changes the world only
  by the disk that the two attempts leave, by the two records of the failures,
  the second of level \<open>ERROR\<close>, and by the calls of the callbacks; the loop goes
  on with the members that follow, from that world and with the counter
  advanced by one; \<^verbatim>\<open>extract_zip_manual\<close> returns \<^verbatim>\<open>True\<close>; and, with callbacks
  that leave the log alone, the record of level \<open>ERROR\<close> is in the log of the
  world returned.
\<close>

theorem extract_skips_failing_entry:
  assumes opens: "open_zip env (disk w) zip_path = Inr (pre @ m # post)"
      and tot: "tot = length (pre @ m # post)"
      and isfile: "\<not> endswith (member_name_norm (host env) m) [os_sep (host env)]"
      and before: "extract_members env target_dir pc sc tot 1 pre 0 w = (n, w1)"
      and w2: "w2 = prepare_parent env target_dir m w1"
      and primary:
        "write_member env m
           (add_long_path_prefix (host env) (member_target (host env) target_dir m)) (disk w2)
         = (Some e, d1)"
      and fallback:
        "write_member env m (member_target (host env) target_dir m) d1 = (Some e2, d2)"
      and w3: "w3 = w2\<lparr>disk := d2,
                       logged := logged w2 @
                         [(DEBUG, ''Primary extract failed for '' @ filename m @ '': ''
                                    @ exc_text env e),
                          (ERROR, ''Failed to extract '' @ filename m @ '': ''
                                    @ exc_text env e2)]\<rparr>"
      and w4: "w4 =
          call_back sc (''Extracting '' @ str_nat (length pre + 1) @ ''/'' @ str_nat tot)
            (call_back pc (percent env (int (n + 1)) (int tot)) w3)"
  shows "extract_member env target_dir pc sc tot (length pre + 1) m n w1 = (n + 1, w4)
       \<and> extract_all env target_dir pc sc (pre @ m # post) w
           = snd (extract_members env target_dir pc sc tot (length pre + 2) post (n + 1) w4)
       \<and> fst (extract_zip_manual env zip_path target_dir pc sc w)
       \<and> ((\<forall>v u. logged (call_back pc v u) = logged u)
            \<and> (\<forall>v u. logged (call_back sc v u) = logged u) \<longrightarrow>
          (ERROR, ''Failed to extract '' @ filename m @ '': '' @ exc_text env e2)
            \<in> set (logged (snd (extract_zip_manual env zip_path target_dir pc sc w))))"
proof -
  have entry: "write_entry env m (member_target (host env) target_dir m) w2 = w3"
    using write_entry_both_fail [OF primary fallback] w3 by (simp add: logger_def)
  have step: "extract_member env target_dir pc sc tot (length pre + 1) m n w1 = (n + 1, w4)"
    using isfile entry w2 w4 by (simp add: extract_member_def Let_def)
  have "extract_members env target_dir pc sc tot 1 (pre @ m # post) 0 w
          = extract_members env target_dir pc sc tot (length pre + 2) post (n + 1) w4"
    using before step by (simp add: extract_members_append)
  then have loop: "extract_all env target_dir pc sc (pre @ m # post) w
          = snd (extract_members env target_dir pc sc tot (length pre + 2) post (n + 1) w4)"
    using tot by (simp add: extract_all_def)
  have ok: "fst (extract_zip_manual env zip_path target_dir pc sc w)"
    using opens by (simp add: extract_zip_manual_def Let_def)
  have log: "(ERROR, ''Failed to extract '' @ filename m @ '': '' @ exc_text env e2)
               \<in> set (logged (snd (extract_zip_manual env zip_path target_dir pc sc w)))"
    if pc: "\<forall>v u. logged (call_back pc v u) = logged u"
      and sc: "\<forall>v u. logged (call_back sc v u) = logged u"
  proof -
    let ?rec = "(ERROR, ''Failed to extract '' @ filename m @ '': '' @ exc_text env e2)"
    have "?rec \<in> set (logged w3)"
      using w3 by simp
    then have "?rec \<in> set (logged w4)"
      using w4 pc sc by simp
    then have "?rec \<in> set (logged (extract_all env target_dir pc sc (pre @ m # post) w))"
      unfolding loop by (rule logged_extract_members [OF pc sc])
    then have "?rec \<in> set (logged (write_marker env target_dir
                                    (extract_all env target_dir pc sc (pre @ m # post) w)))"
      by (rule logged_write_marker)
    then show ?thesis
      using opens by (simp add: extract_zip_manual_def Let_def logger_def)
  qed
  from step loop ok log show ?thesis by blast
qed

text \<open>
  C8 (amended): after all members have been processed the extractor writes the
  marker \<^verbatim>\<open>.extracted_ok\<close> into the target directory with the two characters
  \<^verbatim>\<open>ok\<close> as its content: when the system accepts the write, the extractor
  returns \<^verbatim>\<open>True\<close> and the marker on the disk reads \<^verbatim>\<open>ok\<close>.
\<close>

theorem marker_holds_ok:
  assumes "open_zip env (disk w) zip_path = Inr members"
      and "open_write env (disk (extract_all env target_dir pc sc members w))
             (add_long_path_prefix (host env) (path_join (host env) target_dir EXTRACTION_MARKER))
             ''ok'' = Inr d"
  shows "fst (extract_zip_manual env zip_path target_dir pc sc w)
       \<and> disk (snd (extract_zip_manual env zip_path target_dir pc sc w)) = d
       \<and> read_file (host env) d
           (add_long_path_prefix (host env) (path_join (host env) target_dir EXTRACTION_MARKER))
         = Inr ''ok''"
  using assms read_file_open_write [OF assms(2)]
  by (simp add: extract_zip_manual_def write_marker_def logger_def Let_def)

text \<open>
  C8 (as stated): the marker is a file of zero bytes. After the extraction of the
  sample archive the marker exists and holds \<^verbatim>\<open>ok\<close>.
\<close>

theorem marker_not_empty_counterexample:
  "read_file Windows
     (disk (snd (extract_zip_manual archive_env CLIENT_ZIP_PATH CLIENT_DIR
                   (Some on_progress_emit) (Some on_status_emit) archive_world)))
     (path_join Windows CLIENT_DIR EXTRACTION_MARKER) = Inr ''ok''
   \<and> read_file Windows
     (disk (snd (extract_zip_manual archive_env CLIENT_ZIP_PATH CLIENT_DIR
                   (Some on_progress_emit) (Some on_status_emit) archive_world)))
     (path_join Windows CLIENT_DIR EXTRACTION_MARKER) \<noteq> Inr []"
  by code_simp


theorem marker_holds_ok_witness:
  "open_zip archive_env (disk archive_world) CLIENT_ZIP_PATH = Inr sample_members
   \<and> fst (extract_zip_manual archive_env CLIENT_ZIP_PATH CLIENT_DIR
             (Some on_progress_emit) (Some on_status_emit) archive_world)
   \<and> read_file (host archive_env)
        (disk (snd (extract_zip_manual archive_env CLIENT_ZIP_PATH CLIENT_DIR
                      (Some on_progress_emit) (Some on_status_emit) archive_world)))
        (add_long_path_prefix (host archive_env)
           (path_join (host archive_env) CLIENT_DIR EXTRACTION_MARKER))
      = Inr ''ok''"
proof -
  let ?after = "extract_all archive_env CLIENT_DIR (Some on_progress_emit) (Some on_status_emit)
                  sample_members archive_world"
  have h1: "open_zip archive_env (disk archive_world) CLIENT_ZIP_PATH = Inr sample_members"
    by code_simp
  have h2: "open_write archive_env (disk ?after)
              (add_long_path_prefix (host archive_env)
                 (path_join (host archive_env) CLIENT_DIR EXTRACTION_MARKER))
              ''ok''
            = Inr (disk (write_marker archive_env CLIENT_DIR ?after))"
    by code_simp
  from marker_holds_ok [OF h1 h2] h1 show ?thesis
    by simp
qed

theorem extract_skips_failing_entry_witness:
  "open_zip archive_env (disk archive_world) CLIENT_ZIP_PATH
     = Inr ([Member ''swiftdlc/'' (Readable [])]
            @ Member ''locked.bin'' (Readable ''data'')
            # [Member ''broken.bin'' (Broken ''par'' (LibraryError ''Bad CRC-32'')),
               Member ''swiftdlc/game/libraries/asm-9.1.jar'' (Readable ''asm'')])
   \<and> fst (extract_zip_manual archive_env CLIENT_ZIP_PATH CLIENT_DIR
             (Some on_progress_emit) (Some on_status_emit) archive_world)
   \<and> (ERROR, ''Failed to extract locked.bin: ''
               @ exc_text archive_env (OSError (path_join Windows CLIENT_DIR ''locked.bin'')))
       \<in> set (logged (snd (extract_zip_manual archive_env CLIENT_ZIP_PATH CLIENT_DIR
                               (Some on_progress_emit) (Some on_status_emit) archive_world)))
   \<and> (ERROR, ''Failed to extract broken.bin: ''
               @ exc_text archive_env (LibraryError ''Bad CRC-32''))
       \<in> set (logged (snd (extract_zip_manual archive_env CLIENT_ZIP_PATH CLIENT_DIR
                               (Some on_progress_emit) (Some on_status_emit) archive_world)))
   \<and> \<not> os_path_exists Windows
        (disk (snd (extract_zip_manual archive_env CLIENT_ZIP_PATH CLIENT_DIR
                      (Some on_progress_emit) (Some on_status_emit) archive_world)))
        (path_join Windows CLIENT_DIR ''locked.bin'')
   \<and> read_file Windows
        (disk (snd (extract_zip_manual archive_env CLIENT_ZIP_PATH CLIENT_DIR
                      (Some on_progress_emit) (Some on_status_emit) archive_world)))
        (path_join Windows CLIENT_DIR ''broken.bin'')
      = Inr ''par''
   \<and> read_file Windows
        (disk (snd (extract_zip_manual archive_env CLIENT_ZIP_PATH CLIENT_DIR
                      (Some on_progress_emit) (Some on_status_emit) archive_world)))
        sample_library_jar
      = Inr ''asm''"
proof -
  let ?dir = "Member ''swiftdlc/'' (Readable [])"
  let ?locked = "Member ''locked.bin'' (Readable ''data'')"
  let ?broken = "Member ''broken.bin'' (Broken ''par'' (LibraryError ''Bad CRC-32''))"
  let ?jar = "Member ''swiftdlc/game/libraries/asm-9.1.jar'' (Readable ''asm'')"
  let ?pc = "Some on_progress_emit"
  let ?sc = "Some on_status_emit"
  let ?run = "extract_zip_manual archive_env CLIENT_ZIP_PATH CLIENT_DIR ?pc ?sc archive_world"
  have pc: "\<forall>v u. logged (call_back ?pc v u) = logged u"
    by (simp add: call_back_def on_progress_emit_def)
  have sc: "\<forall>v u. logged (call_back ?sc v u) = logged u"
    by (simp add: call_back_def on_status_emit_def)
  have tot: "(4::nat) = length ([?dir] @ ?locked # [?broken, ?jar])"
    "(4::nat) = length ([?dir, ?locked] @ ?broken # [?jar])"
    by simp_all
  \<comment> \<open>The member whose name is refused.\<close>
  let ?w1 = "snd (extract_members archive_env CLIENT_DIR ?pc ?sc 4 1 [?dir] 0 archive_world)"
  let ?w2 = "prepare_parent archive_env CLIENT_DIR ?locked ?w1"
  let ?t = "member_target (host archive_env) CLIENT_DIR ?locked"
  let ?p = "write_member archive_env ?locked (add_long_path_prefix (host archive_env) ?t) (disk ?w2)"
  let ?f = "write_member archive_env ?locked ?t (snd ?p)"
  have opens: "open_zip archive_env (disk archive_world) CLIENT_ZIP_PATH
                 = Inr ([?dir] @ ?locked # [?broken, ?jar])"
    by code_simp
  have isfile: "\<not> endswith (member_name_norm (host archive_env) ?locked) [os_sep (host archive_env)]"
    by code_simp
  have "fst (extract_members archive_env CLIENT_DIR ?pc ?sc 4 1 [?dir] 0 archive_world) = 0"
    by code_simp
  then have before:
    "extract_members archive_env CLIENT_DIR ?pc ?sc 4 1 [?dir] 0 archive_world = (0, ?w1)"
    by (simp add: prod_eq_iff)
  have "fst ?p = Some (OSError (add_long_path_prefix (host archive_env) ?t))"
    by code_simp
  then have primary: "?p = (Some (OSError (add_long_path_prefix (host archive_env) ?t)), snd ?p)"
    by (simp add: prod_eq_iff)
  have "fst ?f = Some (OSError (path_join Windows CLIENT_DIR ''locked.bin''))"
    by code_simp
  then have fallback: "?f = (Some (OSError (path_join Windows CLIENT_DIR ''locked.bin'')), snd ?f)"
    by (simp add: prod_eq_iff)
  from extract_skips_failing_entry
         [OF opens tot(1) isfile before refl primary fallback refl refl] pc sc
  have a: "fst ?run
     \<and> (ERROR, ''Failed to extract locked.bin: ''
               @ exc_text archive_env (OSError (path_join Windows CLIENT_DIR ''locked.bin'')))
       \<in> set (logged (snd ?run))"
    by simp
  \<comment> \<open>The member whose data break.\<close>
  let ?v1 = "snd (extract_members archive_env CLIENT_DIR ?pc ?sc 4 1 [?dir, ?locked] 0 archive_world)"
  let ?v2 = "prepare_parent archive_env CLIENT_DIR ?broken ?v1"
  let ?u = "member_target (host archive_env) CLIENT_DIR ?broken"
  let ?q = "write_member archive_env ?broken (add_long_path_prefix (host archive_env) ?u) (disk ?v2)"
  let ?g = "write_member archive_env ?broken ?u (snd ?q)"
  have opens': "open_zip archive_env (disk archive_world) CLIENT_ZIP_PATH
                 = Inr ([?dir, ?locked] @ ?broken # [?jar])"
    by code_simp
  have isfile': "\<not> endswith (member_name_norm (host archive_env) ?broken) [os_sep (host archive_env)]"
    by code_simp
  have "fst (extract_members archive_env CLIENT_DIR ?pc ?sc 4 1 [?dir, ?locked] 0 archive_world) = 1"
    by code_simp
  then have before':
    "extract_members archive_env CLIENT_DIR ?pc ?sc 4 1 [?dir, ?locked] 0 archive_world = (1, ?v1)"
    by (simp add: prod_eq_iff)
  have "fst ?q = Some (LibraryError ''Bad CRC-32'')"
    by code_simp
  then have primary': "?q = (Some (LibraryError ''Bad CRC-32''), snd ?q)"
    by (simp add: prod_eq_iff)
  have "fst ?g = Some (LibraryError ''Bad CRC-32'')"
    by code_simp
  then have fallback': "?g = (Some (LibraryError ''Bad CRC-32''), snd ?g)"
    by (simp add: prod_eq_iff)
  from extract_skips_failing_entry
         [OF opens' tot(2) isfile' before' refl primary' fallback' refl refl] pc sc
  have b: "(ERROR, ''Failed to extract broken.bin: ''
               @ exc_text archive_env (LibraryError ''Bad CRC-32''))
       \<in> set (logged (snd ?run))"
    by simp
  have c: "\<not> os_path_exists Windows (disk (snd ?run)) (path_join Windows CLIENT_DIR ''locked.bin'')"
    by code_simp
  have d: "read_file Windows (disk (snd ?run)) (path_join Windows CLIENT_DIR ''broken.bin'')
             = Inr ''par''"
    by code_simp
  have e: "read_file Windows (disk (snd ?run)) sample_library_jar = Inr ''asm''"
    by code_simp
  from opens a b c d e show ?thesis
    by simp
qed

section \<open>Properties of the archive fetcher\<close>

text \<open>Creating directories changes no file.\<close>

lemma makedirs_at_keeps_files:
  "makedirs_at p d = Some d' \<Longrightarrow>
     (fs_lookup d' q = Some (File c)) = (fs_lookup d q = Some (File c))"
proof (induction p arbitrary: d d' q)
  case Nil
  then show ?case by (cases d) auto
next
  case (Cons k ks)
  from Cons.prems obtain es m' where d: "d = Dir es"
    and sub: "makedirs_at ks (case map_of es k of None \<Rightarrow> Dir [] | Some m \<Rightarrow> m) = Some m'"
    and d': "d' = Dir (set_entry k m' es)"
    by (cases d) (auto split: option.splits)
  show ?case
  proof (cases q)
    case Nil
    then show ?thesis using d d' by simp
  next
    case (Cons k' qs)
    show ?thesis
    proof (cases "k' = k")
      case True
      have "(fs_lookup m' qs = Some (File c))
            = (fs_lookup (case map_of es k of None \<Rightarrow> Dir [] | Some m \<Rightarrow> m) qs = Some (File c))"
        using Cons.IH [OF sub] .
      moreover have "fs_lookup (Dir []) qs \<noteq> Some (File c)"
        by (cases qs) auto
      ultimately show ?thesis
        using True Cons d d' by (auto simp: map_of_set_entry_same split: option.splits)
    next
      case False
      then show ?thesis
        using Cons d d' by (simp add: map_of_set_entry_other)
    qed
  qed
qed

lemma read_file_Inr_iff:
  "read_file plat d p = Inr content
     \<longleftrightarrow> p \<noteq> [] \<and> fs_lookup d (path_components plat p) = Some (File content)"
  by (auto simp: read_file_def split: option.splits node.splits)

lemma read_file_cases:
  "read_file plat d p = Inl (OSError p) \<or> (\<exists>c. read_file plat d p = Inr c)"
  by (auto simp: read_file_def split: option.splits node.splits)

lemma read_file_cong:
  assumes "\<And>c. (fs_lookup d' (path_components plat p) = Some (File c))
                = (fs_lookup d (path_components plat p) = Some (File c))"
  shows "read_file plat d' p = read_file plat d p"
proof -
  have iff: "(read_file plat d' p = Inr c) = (read_file plat d p = Inr c)" for c
    using assms by (simp add: read_file_Inr_iff)
  show ?thesis
    using read_file_cases [of plat d p] read_file_cases [of plat d' p] iff
    by (metis sum.distinct(1))
qed

lemma read_file_os_makedirs:
  "os_makedirs env d p = Inr d' \<Longrightarrow> read_file (host env) d' q = read_file (host env) d q"
  by (rule read_file_cong)
     (auto simp: os_makedirs_def makedirs_at_keeps_files split: if_splits option.splits)

lemma read_file_safe_makedirs:
  "read_file (host env) (disk (safe_makedirs env p w)) q = read_file (host env) (disk w) q"
  by (auto simp: safe_makedirs_def logger_def Let_def read_file_os_makedirs split: sum.splits)

lemma write_at_existing_file:
  "fs_lookup d p = Some (File c) \<Longrightarrow> \<exists>d'. write_at p c' d = Some d'"
proof (induction p arbitrary: d)
  case Nil
  then show ?case by simp
next
  case (Cons k ks)
  then show ?case
    by (cases d) (fastforce split: option.splits)+
qed

lemma append_file_content:
  assumes "fs_lookup d (path_components plat p) = Some (File c)"
  shows "fs_lookup (append_file plat p chunk d) (path_components plat p) = Some (File (c @ chunk))"
proof -
  from write_at_existing_file [OF assms] obtain d'
    where w: "write_at (path_components plat p) (c @ chunk) d = Some d'" by blast
  from fs_lookup_write_at [OF w] assms w show ?thesis
    by (simp add: append_file_def)
qed

lemma write_chunks_content:
  assumes "fs_lookup (disk w) (path_components (host env) dest) = Some (File c)"
  shows "fs_lookup (disk (write_chunks env (Some on_progress_emit) dest tot chunks n w))
           (path_components (host env) dest) = Some (File (c @ concat chunks))"
  using assms
proof (induction chunks arbitrary: n w c)
  case Nil
  then show ?case by simp
next
  case (Cons chunk chunks)
  show ?case
  proof (cases "chunk = []")
    case True
    with Cons show ?thesis by simp
  next
    case False
    let ?w2 = "(if tot \<noteq> 0
                then call_back (Some on_progress_emit) (percent env (n + int (length chunk)) tot)
                       (w\<lparr>disk := append_file (host env) dest chunk (disk w)\<rparr>)
                else w\<lparr>disk := append_file (host env) dest chunk (disk w)\<rparr>)"
    have "disk ?w2 = append_file (host env) dest chunk (disk w)"
      by (simp add: call_back_def on_progress_emit_def)
    then have "fs_lookup (disk ?w2) (path_components (host env) dest) = Some (File (c @ chunk))"
      using append_file_content [OF Cons.prems] by simp
    from Cons.IH [OF this] False show ?thesis
      by (simp add: Let_def)
  qed
qed

lemma download_failed_launcher:
  "download_failed env (Some on_status_emit) e w =
     (False, on_status_emit (''Download failed: '' @ exc_text env e)
               (logger ERROR (''download_file error: '' @ exc_text env e) w))"
  by (simp add: download_failed_def call_back_def Let_def)

lemma last_signal_status: "last (signals (on_status_emit text w)) = Status text"
  by (simp add: on_status_emit_def)

lemma disk_emit_logger [simp]:
  "disk (on_status_emit text w) = disk w"
  "disk (on_progress_emit v w) = disk w"
  "disk (on_finished_emit ok msg w) = disk w"
  "disk (logger lvl msg w) = disk w"
  by (simp_all add: on_status_emit_def on_progress_emit_def on_finished_emit_def logger_def)

text \<open>
  C7: when the request fails before anything is written (no connection, a
  timeout, an HTTP error status), \<^verbatim>\<open>download_file\<close> returns \<^verbatim>\<open>False\<close>, its last
  signal is the status \<^verbatim>\<open>Download failed\<close> with the text of the exception, and
  the destination reads as it did before. When the stream breaks after some
  chunks have been received, it returns \<^verbatim>\<open>False\<close> with the same status, and
  the destination is left on the disk holding exactly the chunks received.
\<close>

theorem download_failure_keeps_file:
  "((http_get env url = Unreachable e \<or> http_get env url = Response (Some e) len received br) \<longrightarrow>
      fst (download_file env url dest (Some on_progress_emit) (Some on_status_emit) w) = False
    \<and> last (signals (snd (download_file env url dest (Some on_progress_emit)
                             (Some on_status_emit) w)))
        = Status (''Download failed: '' @ exc_text env e)
    \<and> read_file (host env)
         (disk (snd (download_file env url dest (Some on_progress_emit) (Some on_status_emit) w)))
         dest
        = read_file (host env) (disk w) dest)
   \<and> ((http_get env url = Response None (Inr tot) chunks (Some e)
        \<and> open_write env (disk (safe_makedirs env (dirname (host env) dest) w)) dest [] = Inr d) \<longrightarrow>
      fst (download_file env url dest (Some on_progress_emit) (Some on_status_emit) w) = False
    \<and> last (signals (snd (download_file env url dest (Some on_progress_emit)
                             (Some on_status_emit) w)))
        = Status (''Download failed: '' @ exc_text env e)
    \<and> read_file (host env)
         (disk (snd (download_file env url dest (Some on_progress_emit) (Some on_status_emit) w)))
         dest
        = Inr (concat chunks))"
proof (intro conjI impI)
  assume early: "http_get env url = Unreachable e
                 \<or> http_get env url = Response (Some e) len received br"
  let ?w0 = "safe_makedirs env (dirname (host env) dest) w"
  from early have res:
    "download_file env url dest (Some on_progress_emit) (Some on_status_emit) w
       = (False, on_status_emit (''Download failed: '' @ exc_text env e)
                   (logger ERROR (''download_file error: '' @ exc_text env e) ?w0))"
    by (auto simp: download_file_def download_failed_launcher Let_def)
  show "fst (download_file env url dest (Some on_progress_emit) (Some on_status_emit) w) = False"
    using res by simp
  show "last (signals (snd (download_file env url dest (Some on_progress_emit)
                              (Some on_status_emit) w)))
          = Status (''Download failed: '' @ exc_text env e)"
    using res by (simp add: last_signal_status)
  show "read_file (host env)
          (disk (snd (download_file env url dest (Some on_progress_emit) (Some on_status_emit) w)))
          dest
        = read_file (host env) (disk w) dest"
    using res by (simp add: read_file_safe_makedirs)
next
  assume late: "http_get env url = Response None (Inr tot) chunks (Some e)
      \<and> open_write env (disk (safe_makedirs env (dirname (host env) dest) w)) dest [] = Inr d"
  let ?w0 = "safe_makedirs env (dirname (host env) dest) w"
  let ?w1 = "write_chunks env (Some on_progress_emit) dest tot chunks 0 (?w0\<lparr>disk := d\<rparr>)"
  from late have res:
    "download_file env url dest (Some on_progress_emit) (Some on_status_emit) w
       = (False, on_status_emit (''Download failed: '' @ exc_text env e)
                   (logger ERROR (''download_file error: '' @ exc_text env e) ?w1))"
    by (simp add: download_file_def download_failed_launcher Let_def)
  from late have opened: "read_file (host env) d dest = Inr []"
    by (auto intro: read_file_open_write)
  then have "fs_lookup (disk (?w0\<lparr>disk := d\<rparr>)) (path_components (host env) dest) = Some (File [])"
    and ne: "dest \<noteq> []"
    by (simp_all add: read_file_Inr_iff)
  from write_chunks_content [OF this(1)]
  have "read_file (host env) (disk ?w1) dest = Inr (concat chunks)"
    using ne by (simp add: read_file_Inr_iff)
  then show "read_file (host env)
          (disk (snd (download_file env url dest (Some on_progress_emit) (Some on_status_emit) w)))
          dest
        = Inr (concat chunks)"
    using res by simp
  show "fst (download_file env url dest (Some on_progress_emit) (Some on_status_emit) w) = False"
    using res by simp
  show "last (signals (snd (download_file env url dest (Some on_progress_emit)
                              (Some on_status_emit) w)))
          = Status (''Download failed: '' @ exc_text env e)"
    using res by (simp add: last_signal_status)
qed


theorem download_failure_keeps_file_witness:
  "http_get sample_env CLIENT_ZIP_URL = Unreachable (LibraryError ''connection refused'')
   \<and> fst (download_file sample_env CLIENT_ZIP_URL CLIENT_ZIP_PATH
             (Some on_progress_emit) (Some on_status_emit) archive_world) = False
   \<and> read_file (host sample_env)
        (disk (snd (download_file sample_env CLIENT_ZIP_URL CLIENT_ZIP_PATH
                      (Some on_progress_emit) (Some on_status_emit) archive_world)))
        CLIENT_ZIP_PATH
      = Inr ''PK''
   \<and> http_get broken_env CLIENT_ZIP_URL
       = Response None (Inr 100) [''PK'', ''abc''] (Some (LibraryError ''Connection broken''))
   \<and> fst (download_file broken_env CLIENT_ZIP_URL CLIENT_ZIP_PATH
             (Some on_progress_emit) (Some on_status_emit) empty_world) = False
   \<and> last (signals (snd (download_file broken_env CLIENT_ZIP_URL CLIENT_ZIP_PATH
                            (Some on_progress_emit) (Some on_status_emit) empty_world)))
       = Status ''Download failed: Connection broken''
   \<and> read_file (host broken_env)
        (disk (snd (download_file broken_env CLIENT_ZIP_URL CLIENT_ZIP_PATH
                      (Some on_progress_emit) (Some on_status_emit) empty_world)))
        CLIENT_ZIP_PATH
      = Inr ''PKabc''"
proof -
  have early: "http_get sample_env CLIENT_ZIP_URL = Unreachable (LibraryError ''connection refused'')"
    by (simp add: sample_env_def)
  have before: "read_file (host sample_env) (disk archive_world) CLIENT_ZIP_PATH = Inr ''PK''"
    by code_simp
  have late: "http_get broken_env CLIENT_ZIP_URL
       = Response None (Inr 100) [''PK'', ''abc''] (Some (LibraryError ''Connection broken''))"
    by (simp add: broken_env_def sample_env_def)
  have opened: "open_write broken_env
       (disk (safe_makedirs broken_env (dirname (host broken_env) CLIENT_ZIP_PATH) empty_world))
       CLIENT_ZIP_PATH []
     = Inr (Dir [(''C:'', Dir [(''penjs'', Dir [(''SwiftDlc.zip'', File [])])])])"
    by code_simp
  have msg: "exc_text broken_env (LibraryError ''Connection broken'') = ''Connection broken''"
    by (simp add: broken_env_def sample_env_def sample_exc_text_def)
  from download_failure_keeps_file
         [of sample_env CLIENT_ZIP_URL "LibraryError ''connection refused''" _ _ _
             CLIENT_ZIP_PATH archive_world]
       early before
  have a: "fst (download_file sample_env CLIENT_ZIP_URL CLIENT_ZIP_PATH
             (Some on_progress_emit) (Some on_status_emit) archive_world) = False
     \<and> read_file (host sample_env)
        (disk (snd (download_file sample_env CLIENT_ZIP_URL CLIENT_ZIP_PATH
                      (Some on_progress_emit) (Some on_status_emit) archive_world)))
        CLIENT_ZIP_PATH
      = Inr ''PK''"
    by simp
  from download_failure_keeps_file
         [of broken_env CLIENT_ZIP_URL "LibraryError ''Connection broken''" _ _ _
             CLIENT_ZIP_PATH empty_world 100 "[''PK'', ''abc'']"]
       late opened msg
  have b: "fst (download_file broken_env CLIENT_ZIP_URL CLIENT_ZIP_PATH
             (Some on_progress_emit) (Some on_status_emit) empty_world) = False
   \<and> last (signals (snd (download_file broken_env CLIENT_ZIP_URL CLIENT_ZIP_PATH
                            (Some on_progress_emit) (Some on_status_emit) empty_world)))
       = Status ''Download failed: Connection broken''
   \<and> read_file (host broken_env)
        (disk (snd (download_file broken_env CLIENT_ZIP_URL CLIENT_ZIP_PATH
                      (Some on_progress_emit) (Some on_status_emit) empty_world)))
        CLIENT_ZIP_PATH
      = Inr ''PKabc''"
    by simp
  from a b early late show ?thesis by blast
qed

section \<open>Properties of the launch orchestrator\<close>

lemma quiet_refl [simp]: "quiet w w"
  by (simp add: quiet_def)

lemma quiet_trans: "quiet w w1 \<Longrightarrow> quiet w1 w2 \<Longrightarrow> quiet w w2"
  by (simp add: quiet_def)

lemma quiet_disk [simp]: "quiet w (w'\<lparr>disk := d\<rparr>) = quiet w w'"
  by (simp add: quiet_def)

lemma quiet_logger [simp]: "quiet w (logger lvl msg w') = quiet w w'"
  by (simp add: quiet_def logger_def)

lemma quiet_status [simp]: "quiet w (on_status_emit text w') = quiet w w'"
  by (simp add: quiet_def on_status_emit_def is_success_def)

lemma quiet_progress [simp]: "quiet w (on_progress_emit v w') = quiet w w'"
  by (simp add: quiet_def on_progress_emit_def is_success_def)

lemma quiet_failed [simp]: "quiet w (on_finished_emit False msg w') = quiet w w'"
  by (simp add: quiet_def on_finished_emit_def is_success_def)

lemma quiet_foldl_logger [simp]:
  "quiet w (foldl (\<lambda>w' x. logger lvl (f x) w') w0 xs) = quiet w w0"
  by (induction xs arbitrary: w0) auto

lemma quiet_safe_makedirs [simp]: "quiet w (safe_makedirs env p w') = quiet w w'"
  by (simp add: safe_makedirs_def Let_def split: sum.splits)

lemma quiet_write_chunks [simp]:
  "quiet w (write_chunks env (Some on_progress_emit) dest tot chunks n w') = quiet w w'"
  by (induction chunks arbitrary: n w') (auto simp: Let_def call_back_def)

lemma quiet_download_file [simp]:
  "quiet w (snd (download_file env url dest (Some on_progress_emit) (Some on_status_emit) w'))
     = quiet w w'"
  by (simp add: download_file_def download_failed_def call_back_def Let_def
      split: http_response.splits option.splits sum.splits)

lemma quiet_write_entry [simp]: "quiet w (write_entry env m p w') = quiet w w'"
  by (simp add: write_entry_def Let_def split: prod.splits option.splits)

lemma quiet_prepare_parent [simp]: "quiet w (prepare_parent env t m w') = quiet w w'"
  by (simp add: prepare_parent_def Let_def)

lemma quiet_extract_member [simp]:
  "quiet w (snd (extract_member env t (Some on_progress_emit) (Some on_status_emit)
                   tot idx m n w')) = quiet w w'"
  by (simp add: extract_member_def call_back_def Let_def)

lemma quiet_extract_members [simp]:
  "quiet w (snd (extract_members env t (Some on_progress_emit) (Some on_status_emit)
                   tot idx ms n w')) = quiet w w'"
proof (induction ms arbitrary: idx n w')
  case Nil
  then show ?case by simp
next
  case (Cons m ms)
  obtain n1 w1 where step:
    "extract_member env t (Some on_progress_emit) (Some on_status_emit) tot idx m n w' = (n1, w1)"
    by (cases "extract_member env t (Some on_progress_emit) (Some on_status_emit) tot idx m n w'")
  have "quiet w w1 = quiet w w'"
    using quiet_extract_member [of w env t tot idx m n w'] step by simp
  with Cons.IH [of "idx + 1" n1 w1] step show ?case by simp
qed

lemma quiet_write_marker [simp]: "quiet w (write_marker env t w') = quiet w w'"
  by (simp add: write_marker_def Let_def split: sum.splits)

lemma quiet_extract_zip_manual [simp]:
  "quiet w (snd (extract_zip_manual env z t (Some on_progress_emit) (Some on_status_emit) w'))
     = quiet w w'"
  by (simp add: extract_zip_manual_def extract_all_def Let_def split: sum.splits)

lemma quiet_check_required_files [simp]:
  "quiet w (snd (check_required_files env w')) = quiet w w'"
  by (simp add: check_required_files_def Let_def)

lemma snd_eq: "f = (a, b) \<Longrightarrow> b = snd f"
  by simp

lemma quiet_restore_client [simp]:
  "quiet w (snd (restore_client env w')) = quiet w w'"
proof (cases "os_path_exists (host env) (disk w') CLIENT_ZIP_PATH")
  case True
  obtain ok w1 where e: "extract_zip_manual env CLIENT_ZIP_PATH CLIENT_DIR
                (Some on_progress_emit) (Some on_status_emit) w' = (ok, w1)"
    by (cases "extract_zip_manual env CLIENT_ZIP_PATH CLIENT_DIR
                (Some on_progress_emit) (Some on_status_emit) w'")
  have "quiet w w1 = quiet w w'"
    using quiet_extract_zip_manual [of w env CLIENT_ZIP_PATH CLIENT_DIR w'] e by simp
  then show ?thesis
    using True e by (simp add: restore_client_def)
next
  case False
  obtain ok w1 where dl: "download_file env CLIENT_ZIP_URL CLIENT_ZIP_PATH
                (Some on_progress_emit) (Some on_status_emit) w' = (ok, w1)"
    by (cases "download_file env CLIENT_ZIP_URL CLIENT_ZIP_PATH
                (Some on_progress_emit) (Some on_status_emit) w'")
  obtain ok2 w2 where e: "extract_zip_manual env CLIENT_ZIP_PATH CLIENT_DIR
                (Some on_progress_emit) (Some on_status_emit) w1 = (ok2, w2)"
    by (cases "extract_zip_manual env CLIENT_ZIP_PATH CLIENT_DIR
                (Some on_progress_emit) (Some on_status_emit) w1")
  have q1: "quiet w w1 = quiet w w'"
    using quiet_download_file [of w env CLIENT_ZIP_URL CLIENT_ZIP_PATH w'] dl by simp
  have q2: "quiet w w2 = quiet w w1"
    using quiet_extract_zip_manual [of w env CLIENT_ZIP_PATH CLIENT_DIR w1] e by simp
  show ?thesis
    using False dl e q1 q2 by (simp add: restore_client_def)
qed


lemma quiet_ensure_required_files [simp]:
  "quiet w (snd (ensure_required_files env w')) = quiet w w'"
proof -
  let ?w0 = "on_status_emit ''Preparing launch...'' w'"
  obtain missing w1 where c1: "check_required_files env ?w0 = (missing, w1)"
    by (cases "check_required_files env ?w0")
  have q1: "quiet w w1 = quiet w w'"
    using quiet_check_required_files [of w env ?w0] c1 by simp
  show ?thesis
  proof (cases "missing = []")
    case True
    with c1 q1 show ?thesis by (simp add: ensure_required_files_def)
  next
    case False
    let ?w2 = "on_status_emit
                 (''Missing '' @ str_nat (length missing) @ '' items. Trying to restore...'') w1"
    obtain ok w3 where r: "restore_client env ?w2 = (ok, w3)"
      by (cases "restore_client env ?w2")
    have "w3 = snd (restore_client env ?w2)"
      using r by (rule snd_eq)
    then have q3: "quiet w w3 = quiet w w'"
      by (simp only: quiet_restore_client quiet_status q1)
    obtain missing2 w4 where c2: "check_required_files env w3 = (missing2, w4)"
      by (cases "check_required_files env w3")
    have q4: "quiet w w4 = quiet w w'"
      using quiet_check_required_files [of w env w3] c2 q3 by simp
    show ?thesis
      using False c1 r c2 q3 q4 by (simp add: ensure_required_files_def Let_def)
  qed
qed

lemma quiet_find_java_executable [simp]:
  "quiet w (snd (find_java_executable env dir w')) = quiet w w'"
  by (simp add: find_java_executable_def Let_def split: option.splits)

lemma quiet_resolve_java [simp]:
  "quiet w (snd (resolve_java env self w')) = quiet w w'"
  by (simp add: resolve_java_def split: option.splits)

lemma disk_find_java_executable [simp]:
  "disk (snd (find_java_executable env dir w)) = disk w"
  by (simp add: find_java_executable_def Let_def split: option.splits)

lemma disk_resolve_java [simp]:
  "disk (snd (resolve_java env self w)) = disk w"
  by (simp add: resolve_java_def split: option.splits)

lemma quiet_write_args_file:
  "write_args_file env self w' = Inr w4 \<Longrightarrow> quiet w w4 = quiet w w'"
  "write_args_file env self w' = Inl (e, w3) \<Longrightarrow> quiet w w3 = quiet w w'"
  by (auto simp: write_args_file_def Let_def split: sum.splits if_splits)

text \<open>
  Whenever the launch gets as far as starting the interpreter it reads the
  unbound \<^verbatim>\<open>cmd\<close>: no run starts a process or signals a success.
\<close>

lemma quiet_assemble_and_launch:
  "quiet w (snd (assemble_and_launch env self w')) = quiet w w'"
proof (cases "write_args_file env self w'")
  case (Inl a)
  obtain e w3 where a: "a = (e, w3)" by (cases a)
  with Inl quiet_write_args_file(2) [of env self w' e w3 w] show ?thesis
    by (simp add: assemble_and_launch_def)
next
  case (Inr w4)
  obtain j w5 where r: "resolve_java env self w4 = (j, w5)"
    by (cases "resolve_java env self w4")
  have "quiet w w5 = quiet w w4"
    using quiet_resolve_java [of w env self w4] r by simp
  with Inr r quiet_write_args_file(1) [OF Inr, of w] show ?thesis
    by (simp add: assemble_and_launch_def read_local_def)
qed

lemma quiet_launch_procedure:
  "quiet w (snd (launch_procedure env self w))"
proof -
  obtain proceed w1 where e: "ensure_required_files env w = (proceed, w1)"
    by (cases "ensure_required_files env w")
  have "quiet w w1"
    using quiet_ensure_required_files [of w env w] e by simp
  with e show ?thesis
    by (simp add: launch_procedure_def quiet_assemble_and_launch)
qed

lemma launch_never_succeeds:
  "quiet w (background env (launch_procedure env self) w)"
proof -
  obtain r w' where l: "launch_procedure env self w = (r, w')"
    by (cases "launch_procedure env self w")
  have "quiet w w'"
    using quiet_launch_procedure [of w env self] l by simp
  with l show ?thesis
    by (cases r) (simp_all add: background_def)
qed

lemma disk_foldl_logger [simp]:
  "disk (foldl (\<lambda>w' x. logger lvl (f x) w') w0 xs) = disk w0"
  by (induction xs arbitrary: w0) auto

lemma disk_check_required_files [simp]:
  "disk (snd (check_required_files env w)) = disk w"
  by (simp add: check_required_files_def Let_def)

lemma check_after_check:
  "fst (check_required_files env (snd (check_required_files env w)))
     = fst (check_required_files env w)"
  by (simp add: fst_check_required_files)

lemma last_signal_finished: "last (signals (on_finished_emit ok msg w)) = Finished ok msg"
  by (simp add: on_finished_emit_def)

lemma restore_client_failed:
  "restore_client env w = (False, w') \<Longrightarrow> \<exists>msg. last (signals w') = Finished False msg"
  by (auto simp: restore_client_def last_signal_finished split: if_splits prod.splits)

text \<open>
  C5: the first part of \<^verbatim>\<open>launch_procedure\<close> (check, restore, second check)
  hands over to the assembly of the class path and of \<^verbatim>\<open>args.txt\<close> only in a
  world in which the required-file check reports nothing missing. Otherwise the
  procedure returns in the world it has reached, whose last signal is a failed
  \<^verbatim>\<open>finished\<close>; in particular, when the restore succeeded and the second
  check still reports missing items, it returns with the disk as the restore
  left it and the message that lists those items. No process has been started.
\<close>

theorem launch_stops_while_files_missing:
  assumes "ensure_required_files env w = (proceed, w1)"
  shows "(proceed \<longrightarrow> fst (check_required_files env w1) = [])
       \<and> (\<not> proceed \<longrightarrow>
            launch_procedure env self w = (None, w1)
          \<and> (\<exists>msg. last (signals w1) = Finished False msg))
       \<and> (\<forall>missing w0 w3.
            check_required_files env (on_status_emit ''Preparing launch...'' w) = (missing, w0)
          \<and> missing \<noteq> []
          \<and> restore_client env
               (on_status_emit
                  (''Missing '' @ str_nat (length missing) @ '' items. Trying to restore...'') w0)
              = (True, w3)
          \<and> fst (check_required_files env w3) \<noteq> [] \<longrightarrow>
            \<not> proceed
          \<and> disk w1 = disk w3
          \<and> last (signals w1)
              = Finished False (still_missing_msg (fst (check_required_files env w3))))
       \<and> quiet w w1"
proof -
  let ?w0 = "on_status_emit ''Preparing launch...'' w"
  obtain missing w0 where c1: "check_required_files env ?w0 = (missing, w0)"
    by (cases "check_required_files env ?w0")
  have quiet: "quiet w w1"
    using quiet_ensure_required_files [of w env w] assms by simp
  have launch: "\<not> proceed \<Longrightarrow> launch_procedure env self w = (None, w1)"
    using assms by (simp add: launch_procedure_def)
  show ?thesis
  proof (cases "missing = []")
    case True
    with c1 assms have p: "proceed" and w1: "w1 = on_status_emit ''All required files present'' w0"
      by (auto simp: ensure_required_files_def)
    have "w0 = snd (check_required_files env ?w0)"
      using c1 by (rule snd_eq)
    then have "fst (check_required_files env w1) = fst (check_required_files env ?w0)"
      using w1 by (simp add: fst_check_required_files)
    with c1 True have "fst (check_required_files env w1) = []" by simp
    with p c1 True quiet show ?thesis by auto
  next
    case False
    let ?w2 = "on_status_emit
                 (''Missing '' @ str_nat (length missing) @ '' items. Trying to restore...'') w0"
    obtain ok w3 where r: "restore_client env ?w2 = (ok, w3)"
      by (cases "restore_client env ?w2")
    obtain missing2 w4 where c2: "check_required_files env w3 = (missing2, w4)"
      by (cases "check_required_files env w3")
    have w4: "w4 = snd (check_required_files env w3)"
      using c2 by (rule snd_eq)
    have m2: "missing2 = fst (check_required_files env w3)"
      using c2 by simp
    show ?thesis
    proof (cases ok)
      case False
      with \<open>missing \<noteq> []\<close> c1 r assms have np: "\<not> proceed" and w1: "w1 = w3"
        by (auto simp: ensure_required_files_def Let_def)
      from False r have "\<exists>msg. last (signals w3) = Finished False msg"
        by (auto dest: restore_client_failed)
      with np w1 launch quiet c1 r False show ?thesis by auto
    next
      case True
      show ?thesis
      proof (cases "missing2 = []")
        case True
        with \<open>ok\<close> \<open>missing \<noteq> []\<close> c1 r c2 assms have p: "proceed" and w1: "w1 = w4"
          by (auto simp: ensure_required_files_def Let_def)
        have "fst (check_required_files env w1) = []"
          using w1 w4 m2 True by (simp add: check_after_check)
        with p quiet c1 r m2 True show ?thesis by auto
      next
        case False
        with \<open>ok\<close> \<open>missing \<noteq> []\<close> c1 r c2 assms have np: "\<not> proceed"
          and w1: "w1 = on_finished_emit False (still_missing_msg missing2)
                          (logger ERROR (still_missing_msg missing2) w4)"
          by (auto simp: ensure_required_files_def Let_def)
        have d: "disk w1 = disk w3"
          using w1 w4 by simp
        have l: "last (signals w1) = Finished False (still_missing_msg missing2)"
          using w1 by (simp add: last_signal_finished)
        from np launch quiet c1 r m2 d l show ?thesis by auto
      qed
    qed
  qed
qed


theorem launch_stops_while_files_missing_witness:
  "fst (ensure_required_files sample_env installed_world)
   \<and> fst (check_required_files sample_env (snd (ensure_required_files sample_env installed_world)))
       = []
   \<and> \<not> fst (ensure_required_files archive_env archive_world)
   \<and> launch_procedure archive_env sample_launcher archive_world
       = (None, snd (ensure_required_files archive_env archive_world))
   \<and> last (signals (snd (ensure_required_files archive_env archive_world)))
       = Finished False (still_missing_msg [version_jar Windows, version_jar Windows])"
proof -
  have "fst (ensure_required_files sample_env installed_world)"
    by code_simp
  then have a: "ensure_required_files sample_env installed_world
                  = (True, snd (ensure_required_files sample_env installed_world))"
    by (simp add: prod_eq_iff)
  have "\<not> fst (ensure_required_files archive_env archive_world)"
    by code_simp
  then have b: "ensure_required_files archive_env archive_world
                  = (False, snd (ensure_required_files archive_env archive_world))"
    by (simp add: prod_eq_iff)
  let ?c = "check_required_files archive_env (on_status_emit ''Preparing launch...'' archive_world)"
  let ?w2 = "on_status_emit
               (''Missing '' @ str_nat (length (fst ?c)) @ '' items. Trying to restore...'')
               (snd ?c)"
  have c: "?c = (fst ?c, snd ?c)"
    by simp
  have m: "fst ?c \<noteq> []"
    by code_simp
  have "fst (restore_client archive_env ?w2)"
    by code_simp
  then have r: "restore_client archive_env ?w2 = (True, snd (restore_client archive_env ?w2))"
    by (simp add: prod_eq_iff)
  have m2: "fst (check_required_files archive_env (snd (restore_client archive_env ?w2)))
              = [version_jar Windows, version_jar Windows]"
    by code_simp
  from launch_stops_while_files_missing [OF a, of sample_launcher]
  have one: "fst (check_required_files sample_env
                    (snd (ensure_required_files sample_env installed_world))) = []"
    by simp
  from launch_stops_while_files_missing [OF b, of sample_launcher] c m r m2
  have two: "launch_procedure archive_env sample_launcher archive_world
               = (None, snd (ensure_required_files archive_env archive_world))
           \<and> last (signals (snd (ensure_required_files archive_env archive_world)))
               = Finished False (still_missing_msg [version_jar Windows, version_jar Windows])"
    by (metis list.distinct(1))
  from one two a b show ?thesis
    by (metis fst_conv)
qed

lemma write_args_file_written:
  assumes "write_args_file env self w = Inr w4"
  shows "read_file (host env) (disk w4) (args_path (host env))
           = Inr (args_text (host env) self
                    (str_join [os_pathsep (host env)]
                       (filter_guava_keep_latest (host env) (collect_jars (host env) (disk w)))))"
    and "last (signals w4) = Status ''args.txt written''"
  using assms
  by (auto simp: write_args_file_def Let_def last_signal_status
           split: sum.splits dest: read_file_open_write)

text \<open>
  C2 (amended): when the files are in place, \<^verbatim>\<open>args.txt\<close> has been written and
  no usable interpreter is found (none is configured or found, or the path does
  not exist), the procedure ends with \<^verbatim>\<open>finished(False, "Java not found. Set
  path in Settings.")\<close> without starting a process; the arguments file has been
  written before the search and is on the disk with the execution plan.
\<close>

theorem java_not_found_after_args_written:
  assumes "ensure_required_files env w = (True, w1)"
      and "write_args_file env self w1 = Inr w4"
      and "resolve_java env self w4 = (java_exec, w5)"
      and "java_unusable (host env) (disk w5) java_exec"
  shows "launch_procedure env self w
           = (None, on_finished_emit False ''Java not found. Set path in Settings.'' w5)
       \<and> spawned w5 = spawned w
       \<and> last (signals w4) = Status ''args.txt written''
       \<and> read_file (host env) (disk w5) (args_path (host env))
           = Inr (args_text (host env) self
                    (str_join [os_pathsep (host env)]
                       (filter_guava_keep_latest (host env) (collect_jars (host env) (disk w1)))))"
proof -
  have "launch_procedure env self w
          = (None, on_finished_emit False ''Java not found. Set path in Settings.'' w5)"
    using assms by (simp add: launch_procedure_def assemble_and_launch_def)
  moreover have "quiet w w1"
    using quiet_ensure_required_files [of w env w] assms(1) by simp
  then have "quiet w w4"
    using quiet_write_args_file(1) [OF assms(2), of w] by simp
  then have "quiet w w5"
    using quiet_resolve_java [of w env self w4] assms(3) by simp
  then have "spawned w5 = spawned w"
    by (simp add: quiet_def)
  moreover have "disk w5 = disk w4"
    using disk_resolve_java [of env self w4] assms(3) by simp
  ultimately show ?thesis
    using write_args_file_written [OF assms(2)] by simp
qed

text \<open>
  C2 (as stated): on the path where no interpreter is found no arguments file is
  created. On an installed client without \<^verbatim>\<open>args.txt\<close> and without any
  interpreter, the launch ends with \<^verbatim>\<open>Java not found\<close> and \<^verbatim>\<open>args.txt\<close>
  exists afterwards.
\<close>

theorem no_args_before_java_counterexample:
  "\<not> os_path_exists Windows (disk installed_world) (args_path Windows)
   \<and> os_path_exists Windows
        (disk (background sample_env (launch_procedure sample_env launcher_without_java)
                 installed_world))
        (args_path Windows)
   \<and> last (signals (background sample_env (launch_procedure sample_env launcher_without_java)
                       installed_world))
       = Finished False ''Java not found. Set path in Settings.''"
  by code_simp

theorem java_not_found_after_args_written_witness:
  "java_unusable (host sample_env)
     (disk (snd (resolve_java sample_env launcher_without_java
                   (projr (write_args_file sample_env launcher_without_java
                             (snd (ensure_required_files sample_env installed_world)))))))
     (fst (resolve_java sample_env launcher_without_java
             (projr (write_args_file sample_env launcher_without_java
                       (snd (ensure_required_files sample_env installed_world))))))
   \<and> launch_procedure sample_env launcher_without_java installed_world
       = (None, on_finished_emit False ''Java not found. Set path in Settings.''
                  (snd (resolve_java sample_env launcher_without_java
                          (projr (write_args_file sample_env launcher_without_java
                                    (snd (ensure_required_files sample_env installed_world)))))))
   \<and> \<not> isl (read_file (host sample_env)
        (disk (snd (launch_procedure sample_env launcher_without_java installed_world)))
        (args_path (host sample_env)))"
proof -
  let ?w1 = "snd (ensure_required_files sample_env installed_world)"
  let ?w4 = "projr (write_args_file sample_env launcher_without_java ?w1)"
  let ?r = "resolve_java sample_env launcher_without_java ?w4"
  have "fst (ensure_required_files sample_env installed_world)"
    by code_simp
  then have a: "ensure_required_files sample_env installed_world = (True, ?w1)"
    by (simp add: prod_eq_iff)
  have "\<not> isl (write_args_file sample_env launcher_without_java ?w1)"
    by code_simp
  then have b: "write_args_file sample_env launcher_without_java ?w1 = Inr ?w4"
    by (cases "write_args_file sample_env launcher_without_java ?w1") simp_all
  have c: "?r = (fst ?r, snd ?r)"
    by simp
  have d: "java_unusable (host sample_env) (disk (snd ?r)) (fst ?r)"
    by code_simp
  from java_not_found_after_args_written [OF a b c d] d show ?thesis
    by (simp add: on_finished_emit_def)
qed

text \<open>
  C1: on an installed client with an existing interpreter whose process would
  exit with status 0, the launch procedure raises \<^verbatim>\<open>UnboundLocalError\<close> for
  \<^verbatim>\<open>cmd\<close>; the wrapper turns it into a failed \<^verbatim>\<open>finished\<close> carrying the text
  of that exception, and no process is started.
\<close>

theorem launch_with_java_raises_unbound_cmd:
  "fst (check_required_files sample_env installed_world) = []
   \<and> os_path_exists Windows (disk installed_world) sample_java
   \<and> run_process sample_env [sample_java, ''@'' @ args_path Windows] = Inr (0, [], [])
   \<and> fst (launch_procedure sample_env sample_launcher installed_world)
       = Some (UnboundLocalError ''cmd'')
   \<and> last (signals (background sample_env (launch_procedure sample_env sample_launcher)
                       installed_world))
       = Finished False (sample_exc_text (UnboundLocalError ''cmd''))
   \<and> spawned (background sample_env (launch_procedure sample_env sample_launcher)
                installed_world) = []"
  by code_simp

end
